theory Spec2Isabelle
  imports Complex_Main
begin

section \<open>JavaScript values, exceptions and the retry wrapper\<close>

text \<open>
  A property of a stored JSON object is either missing from the object (\<open>undefined\<close> when
  read), the JSON value \<open>null\<close>, or a proper value.
\<close>

datatype 'a field = Absent | Null | Val 'a

text \<open>The operator \<open>x ?? null\<close>.\<close>

fun or_null :: "'a field \<Rightarrow> 'a field" where
  "or_null Absent = Null"
| "or_null Null = Null"
| "or_null (Val v) = Val v"

text \<open>
  Time stamps are stored as the ISO-8601 strings produced by \<open>toISOString\<close>. They are
  identified here with the milliseconds since the Unix epoch that they denote; the one
  place where the source compares two of them as strings is modelled by \<open>iso_gt\<close> below.
\<close>

type_synonym timestamp = int

text \<open>
  Thrown values: an \<open>Error\<close> object carrying a message, or the value \<open>undefined\<close>, which
  \<open>retry\<close> throws when it was given no attempt at all.
\<close>

datatype exn = Error string | Undefined

text \<open>
  Reading \<open>error.message\<close> in a catch block: on \<open>undefined\<close> the read itself throws a
  TypeError, which leaves the catch block.
\<close>

fun message :: "exn \<Rightarrow> exn + string" where
  "message (Error m) = Inr m"
| "message Undefined = Inl (Error ''Cannot read properties of undefined (reading message)'')"

text \<open>
  \<open>retry(fn, maxRetries, delay)\<close>: the \<open>i\<close>-th call of \<open>fn\<close> has the outcome \<open>fn i\<close>; the
  delay between attempts is not modelled. The second component counts the calls made.
\<close>

primrec retry_loop :: "nat \<Rightarrow> nat \<Rightarrow> (nat \<Rightarrow> exn + 'a) \<Rightarrow> exn \<Rightarrow> (exn + 'a) \<times> nat" where
  "retry_loop 0 i fn lastError = (Inl lastError, i)"
| "retry_loop (Suc n) i fn lastError =
     (case fn i of
        Inr v \<Rightarrow> (Inr v, Suc i)
      | Inl e \<Rightarrow> retry_loop n (Suc i) fn e)"

definition retry :: "(nat \<Rightarrow> exn + 'a) \<Rightarrow> nat \<Rightarrow> exn + 'a" where
  "retry fn maxRetries = fst (retry_loop maxRetries 0 fn Undefined)"

definition attempts :: "(nat \<Rightarrow> exn + 'a) \<Rightarrow> nat \<Rightarrow> nat" where
  "attempts fn maxRetries = snd (retry_loop maxRetries 0 fn Undefined)"

text \<open>
  \<open>String.prototype.split\<close> with a non-empty separator (every call site passes one), and
  \<open>startsWith\<close>.
\<close>

fun split_acc :: "string \<Rightarrow> string \<Rightarrow> string \<Rightarrow> string list" where
  "split_acc sep cur [] = [cur]"
| "split_acc sep cur (c # cs) =
     (if sep \<noteq> [] \<and> take (length sep) (c # cs) = sep
      then cur # split_acc sep [] (drop (length sep - 1) cs)
      else split_acc sep (cur @ [c]) cs)"

definition js_split :: "string \<Rightarrow> string \<Rightarrow> string list" where
  "js_split sep s = split_acc sep [] s"

definition startsWith :: "string \<Rightarrow> string \<Rightarrow> bool" where
  "startsWith s p = (take (length p) s = p)"

text \<open>Template literals print a missing value as the text \<open>undefined\<close>.\<close>

fun template :: "string option \<Rightarrow> string" where
  "template None = ''undefined''"
| "template (Some s) = s"

text \<open>Truthiness of a string-or-null value: \<open>null\<close>, \<open>undefined\<close> and \<open>''\<close> are falsy.\<close>

fun truthy_str :: "string option \<Rightarrow> bool" where
  "truthy_str None = False"
| "truthy_str (Some s) = (s \<noteq> [])"

section \<open>Configuration, stores and the outside world\<close>

text \<open>
  The module \<open>config/constants.js\<close> is a parameter: the constants the handlers import.
\<close>

record config =
  MAX_RETRIES :: nat
  MAX_KEYS_PER_RUN :: int
  EXPIRATION_DAYS :: rat
  DELETE_DRY_RUN :: bool
  DELETE_S3_OBJECTS :: bool
  AUTH_TOKEN :: string
  WEIGHT_LATENCY :: rat
  WEIGHT_ACCESS_KEY_COUNT :: rat

text \<open>
  A credential record as stored in \<open>ACCESS_KEYS_NAMESPACE\<close>. Further properties
  (\<open>isWebSocket\<close>, \<open>serverName\<close>, \<open>apiEndpoint\<close>) are copied unchanged by every spread
  and are left out; \<open>s3Paths\<close> is the empty list when missing.
\<close>

record keydata =
  creationTime :: "timestamp field"
  deletionTime :: "timestamp field"
  lastSeen :: "timestamp field"
  currentlyConnected :: "bool field"
  s3Paths :: "string list"

text \<open>
  A stored value is the JSON text of a credential record, or text that \<open>JSON.parse\<close>
  rejects.
\<close>

datatype stored = Record keydata | Garbage

text \<open>
  A value of \<open>API_ENDPOINTS_NAMESPACE\<close>: JSON with optional \<open>apiUrl\<close> and
  \<open>prometheusUrl\<close>, or (older entries) the bare API URL, which is not JSON.
\<close>

datatype endpoint_entry = EpJson "string option" "string option" | EpRaw string

text \<open>
  The ages in days that the revocation handler computes from time stamps: a rational, or
  \<open>NaN\<close>.
\<close>

type_synonym jsnum = "rat option"

fun js_gt :: "jsnum \<Rightarrow> jsnum \<Rightarrow> bool" where
  "js_gt (Some a) (Some b) = (b < a)"
| "js_gt _ _ = False"

text \<open>
  Byte counts and scores are computed in IEEE-754 binary64 arithmetic. A \<open>double\<close> is a
  finite value, an infinity or \<open>NaN\<close>; the finite ones are the rationals \<open>m * 2^e\<close> with
  \<open>\<bar>m\<bar> < 2^53\<close> and \<open>-1074 \<le> e \<le> 971\<close>. Zero carries no sign here: nothing in the
  handlers tells \<open>-0\<close> from \<open>+0\<close>.
\<close>

datatype double = Finite rat | PosInfinity | NegInfinity | NaN

text \<open>\<open>ilog2 n\<close> is the position of the leading bit of a positive integer.\<close>

function ilog2 :: "int \<Rightarrow> int" where
  "ilog2 n = (if n < 2 then 0 else 1 + ilog2 (n div 2))"
  by pat_completeness auto
termination by (relation "measure nat") auto

definition pow2 :: "int \<Rightarrow> rat" where
  "pow2 e = (if 0 \<le> e then 2 ^ nat e else 1 / 2 ^ nat (- e))"

text \<open>The binary exponent of a positive rational: \<open>2^e \<le> a < 2^(e + 1)\<close>.\<close>

definition exponent :: "rat \<Rightarrow> int" where
  "exponent a =
     (let (p, q) = quotient_of a;
          d = ilog2 p - ilog2 q
      in if pow2 d \<le> a then d else d - 1)"

text \<open>Rounding to the nearest integer, a tie going to the even one.\<close>

definition round_even :: "rat \<Rightarrow> int" where
  "round_even q =
     (let n = \<lfloor>q\<rfloor>; r = q - of_int n
      in if r < 1 / 2 then n else if 1 / 2 < r then n + 1 else if even n then n else n + 1)"

text \<open>
  The double nearest to a rational (round to nearest, ties to even): the result of every
  arithmetic operation and of reading a decimal numeral. The spacing of the doubles near
  \<open>x\<close> is \<open>2^(e - 52)\<close>, with \<open>e\<close> not below \<open>-1022\<close> (gradual underflow); what rounds to
  \<open>2^1024\<close> or beyond is infinite.
\<close>

definition round_double :: "rat \<Rightarrow> double" where
  "round_double x =
     (if x = 0 then Finite 0
      else
        let a = \<bar>x\<bar>;
            e = max (exponent a) (- 1022);
            n = round_even (a / pow2 (e - 52))
        in if 1023 < e \<or> (e = 1023 \<and> 9007199254740992 \<le> n)
           then (if 0 < x then PosInfinity else NegInfinity)
           else Finite ((if 0 < x then 1 else - 1) * of_int n * pow2 (e - 52)))"

text \<open>The operators \<open>*\<close>, \<open>+\<close>, unary and binary \<open>-\<close>, and \<open>>\<close> on numbers.\<close>

fun double_mul :: "double \<Rightarrow> double \<Rightarrow> double" where
  "double_mul NaN _ = NaN"
| "double_mul _ NaN = NaN"
| "double_mul (Finite a) (Finite b) = round_double (a * b)"
| "double_mul (Finite a) PosInfinity =
     (if a = 0 then NaN else if 0 < a then PosInfinity else NegInfinity)"
| "double_mul (Finite a) NegInfinity =
     (if a = 0 then NaN else if 0 < a then NegInfinity else PosInfinity)"
| "double_mul PosInfinity (Finite b) =
     (if b = 0 then NaN else if 0 < b then PosInfinity else NegInfinity)"
| "double_mul NegInfinity (Finite b) =
     (if b = 0 then NaN else if 0 < b then NegInfinity else PosInfinity)"
| "double_mul PosInfinity PosInfinity = PosInfinity"
| "double_mul NegInfinity NegInfinity = PosInfinity"
| "double_mul PosInfinity NegInfinity = NegInfinity"
| "double_mul NegInfinity PosInfinity = NegInfinity"

fun double_add :: "double \<Rightarrow> double \<Rightarrow> double" where
  "double_add NaN _ = NaN"
| "double_add _ NaN = NaN"
| "double_add (Finite a) (Finite b) = round_double (a + b)"
| "double_add PosInfinity NegInfinity = NaN"
| "double_add NegInfinity PosInfinity = NaN"
| "double_add PosInfinity _ = PosInfinity"
| "double_add NegInfinity _ = NegInfinity"
| "double_add _ PosInfinity = PosInfinity"
| "double_add _ NegInfinity = NegInfinity"

fun double_neg :: "double \<Rightarrow> double" where
  "double_neg (Finite a) = Finite (- a)"
| "double_neg PosInfinity = NegInfinity"
| "double_neg NegInfinity = PosInfinity"
| "double_neg NaN = NaN"

definition double_sub :: "double \<Rightarrow> double \<Rightarrow> double" where
  "double_sub a b = double_add a (double_neg b)"

fun double_gt :: "double \<Rightarrow> double \<Rightarrow> bool" where
  "double_gt NaN _ = False"
| "double_gt _ NaN = False"
| "double_gt (Finite a) (Finite b) = (b < a)"
| "double_gt PosInfinity PosInfinity = False"
| "double_gt PosInfinity _ = True"
| "double_gt _ PosInfinity = False"
| "double_gt NegInfinity _ = False"
| "double_gt _ NegInfinity = True"

text \<open>
  The reply to an HTTP request, as far as the handlers look at it: the request fails, or
  the reply has a non-success status (status line and body text), or it succeeds.
\<close>

datatype 'b http = NetworkError string | Status string string | OkBody 'b

text \<open>
  One element of a Prometheus result vector. \<open>Unusable\<close> is any element that fails the
  shape test of \<open>queryActiveKeys\<close> (no metric, no \<open>access_key\<close> label, or a value that is
  not a two-element array). In \<open>Sample k t b\<close>, \<open>k\<close> is the label as a property key, \<open>t\<close> the
  time value of \<open>new Date(value[0] * 1000)\<close> in milliseconds (\<open>None\<close> when that is no valid
  date) and \<open>b\<close> is \<open>parseFloat(value[1])\<close>.
\<close>

datatype prom_item = Unusable | Sample string "timestamp option" double

text \<open>
  The body of a Prometheus reply: not JSON; JSON without a \<open>data\<close> object; \<open>data.result\<close>
  missing or not an array; or a result vector.
\<close>

datatype prom_body = NotJson | NoData | NoResultArray | Result "prom_item list"

text \<open>Operations on the key-value stores that can fail transiently.\<close>

datatype kv_op =
    AkGet string | AkPut string | AkList string
  | EpList | EpGet string
  | StGet string | StPut string | StDelete string

text \<open>
  Everything outside the worker that stays fixed during one invocation. \<open>fault op i\<close> is
  the failure, if any, of the \<open>i\<close>-th attempt at \<open>op\<close>. \<open>ak_names\<close> are the key names of
  \<open>ACCESS_KEYS_NAMESPACE\<close> in listing order (the scanners overwrite records, they never
  add or remove a key). \<open>clock\<close> is \<open>new Date()\<close>.
\<close>

record env =
  cfg :: config
  fault :: "kv_op \<Rightarrow> nat \<Rightarrow> exn option"
  ak_names :: "string list"
  endpoints :: "(string \<times> endpoint_entry) list"
  prometheus :: "string \<Rightarrow> nat \<Rightarrow> prom_body http"
  backend_delete :: "string \<Rightarrow> unit http"
  s3_delete :: "string list \<Rightarrow> string + bool"
  s3Providers :: "string list"
  clock :: timestamp

text \<open>Mutating requests, in the order they are issued; a retried request appears once per attempt.\<close>

datatype effect =
    KvPut string keydata
  | StatePut string string
  | StateDelete string
  | BackendDelete string
  | S3Delete "string list"

record world =
  access_keys :: "string \<rightharpoonup> stored"
  state_kv :: "string \<rightharpoonup> string"
  requests :: "effect list"

subsection \<open>The key-value store interface\<close>

text \<open>
  The opaque cursor of a listing stands for the number of keys already returned; the
  token for position \<open>n\<close> is written as \<open>n\<close> tally marks. A missing or empty cursor starts
  at the beginning, any other text is rejected.
\<close>

definition token :: "nat \<Rightarrow> string" where
  "token n = replicate n (CHR ''c'')"

definition offset_of :: "string option \<Rightarrow> nat option" where
  "offset_of cursor =
     (case cursor of
        None \<Rightarrow> Some 0
      | Some t \<Rightarrow> if t = token (length t) then Some (length t) else None)"

text \<open>
  \<open>list({prefix, cursor, limit})\<close>: a limit outside 1..1000 is rejected by the store; the
  reply carries a cursor exactly when keys remain.
\<close>

definition kv_list :: "string list \<Rightarrow> string \<Rightarrow> string option \<Rightarrow> int \<Rightarrow> exn + (string list \<times> string option)" where
  "kv_list names pre cursor limit =
     (if limit < 1 \<or> 1000 < limit then Inl (Error ''Invalid key_count_limit'')
      else case offset_of cursor of
        None \<Rightarrow> Inl (Error ''Invalid cursor'')
      | Some off \<Rightarrow>
          let matching = filter (\<lambda>k. startsWith k pre) names;
              nxt = off + nat limit
          in Inr (take (nat limit) (drop off matching),
                  if nxt < length matching then Some (token nxt) else None))"

definition ak_list :: "env \<Rightarrow> string \<Rightarrow> string option \<Rightarrow> int \<Rightarrow> nat \<Rightarrow> exn + (string list \<times> string option)" where
  "ak_list E pre cursor limit i =
     (case fault E (AkList pre) i of
        Some e \<Rightarrow> Inl e
      | None \<Rightarrow> kv_list (ak_names E) pre cursor limit)"

definition ak_get :: "env \<Rightarrow> world \<Rightarrow> string \<Rightarrow> nat \<Rightarrow> exn + stored option" where
  "ak_get E w k i =
     (case fault E (AkGet k) i of
        Some e \<Rightarrow> Inl e
      | None \<Rightarrow> Inr (access_keys w k))"

text \<open>\<open>JSON.parse\<close> of a value read from the store; \<open>JSON.parse(null)\<close> is \<open>null\<close>.\<close>

fun json_parse :: "stored option \<Rightarrow> exn + keydata option" where
  "json_parse None = Inr None"
| "json_parse (Some Garbage) = Inl (Error ''Unexpected token in JSON'')"
| "json_parse (Some (Record d)) = Inr (Some d)"

definition ak_get_parse :: "env \<Rightarrow> world \<Rightarrow> string \<Rightarrow> nat \<Rightarrow> exn + keydata option" where
  "ak_get_parse E w k i =
     (case ak_get E w k i of
        Inl e \<Rightarrow> Inl e
      | Inr v \<Rightarrow> json_parse v)"

definition put_attempt :: "env \<Rightarrow> string \<Rightarrow> nat \<Rightarrow> exn + unit" where
  "put_attempt E k i = (case fault E (AkPut k) i of Some e \<Rightarrow> Inl e | None \<Rightarrow> Inr ())"

text \<open>
  \<open>retry(() => ACCESS_KEYS_NAMESPACE.put(key, JSON.stringify(d)))\<close>: every attempt is a
  request; the value is stored when an attempt succeeds.
\<close>

definition ak_put :: "env \<Rightarrow> string \<Rightarrow> keydata \<Rightarrow> world \<Rightarrow> (exn + unit) \<times> world" where
  "ak_put E k d w =
     (let r = retry (put_attempt E k) (MAX_RETRIES (cfg E));
          n = attempts (put_attempt E k) (MAX_RETRIES (cfg E));
          w1 = w\<lparr>requests := requests w @ replicate n (KvPut k d)\<rparr>
      in case r of
           Inl e \<Rightarrow> (Inl e, w1)
         | Inr u \<Rightarrow> (Inr (), w1\<lparr>access_keys := (access_keys w1)(k \<mapsto> Record d)\<rparr>))"

definition ep_get :: "env \<Rightarrow> string \<Rightarrow> nat \<Rightarrow> exn + endpoint_entry option" where
  "ep_get E h i =
     (case fault E (EpGet h) i of
        Some e \<Rightarrow> Inl e
      | None \<Rightarrow> Inr (map_of (endpoints E) h))"

definition ep_list :: "env \<Rightarrow> nat \<Rightarrow> exn + string list" where
  "ep_list E i =
     (case fault E EpList i of
        Some e \<Rightarrow> Inl e
      | None \<Rightarrow> Inr (map fst (endpoints E)))"

definition st_get :: "env \<Rightarrow> world \<Rightarrow> string \<Rightarrow> nat \<Rightarrow> exn + string option" where
  "st_get E w k i =
     (case fault E (StGet k) i of
        Some e \<Rightarrow> Inl e
      | None \<Rightarrow> Inr (state_kv w k))"

definition st_put_attempt :: "env \<Rightarrow> string \<Rightarrow> nat \<Rightarrow> exn + unit" where
  "st_put_attempt E k i = (case fault E (StPut k) i of Some e \<Rightarrow> Inl e | None \<Rightarrow> Inr ())"

definition st_put :: "env \<Rightarrow> string \<Rightarrow> string \<Rightarrow> world \<Rightarrow> (exn + unit) \<times> world" where
  "st_put E k v w =
     (let r = retry (st_put_attempt E k) (MAX_RETRIES (cfg E));
          n = attempts (st_put_attempt E k) (MAX_RETRIES (cfg E));
          w1 = w\<lparr>requests := requests w @ replicate n (StatePut k v)\<rparr>
      in case r of
           Inl e \<Rightarrow> (Inl e, w1)
         | Inr u \<Rightarrow> (Inr (), w1\<lparr>state_kv := (state_kv w1)(k \<mapsto> v)\<rparr>))"

definition st_delete_attempt :: "env \<Rightarrow> string \<Rightarrow> nat \<Rightarrow> exn + unit" where
  "st_delete_attempt E k i = (case fault E (StDelete k) i of Some e \<Rightarrow> Inl e | None \<Rightarrow> Inr ())"

definition st_delete :: "env \<Rightarrow> string \<Rightarrow> world \<Rightarrow> (exn + unit) \<times> world" where
  "st_delete E k w =
     (let r = retry (st_delete_attempt E k) (MAX_RETRIES (cfg E));
          n = attempts (st_delete_attempt E k) (MAX_RETRIES (cfg E));
          w1 = w\<lparr>requests := requests w @ replicate n (StateDelete k)\<rparr>
      in case r of
           Inl e \<Rightarrow> (Inl e, w1)
         | Inr u \<Rightarrow> (Inr (), w1\<lparr>state_kv := (state_kv w1)(k := None)\<rparr>))"

section \<open>Usage oracle adapter\<close>

text \<open>\<open>utils/prometheusQueries.js\<close>: the try block of \<open>queryPrometheus\<close>, then its catch.\<close>

datatype prom_result = PromOk "prom_item list option" | PromFail string

fun queryPrometheus_try :: "prom_body http \<Rightarrow> exn + prom_result" where
  "queryPrometheus_try (NetworkError m) = Inl (Error m)"
| "queryPrometheus_try (Status line body) = Inl (Error (''Prometheus API request failed: '' @ line))"
| "queryPrometheus_try (OkBody NotJson) = Inl (Error ''Unexpected token in JSON'')"
| "queryPrometheus_try (OkBody NoData) = Inl (Error ''Cannot read properties of undefined (reading result)'')"
| "queryPrometheus_try (OkBody NoResultArray) = Inr (PromOk None)"
| "queryPrometheus_try (OkBody (Result items)) = Inr (PromOk (Some items))"

definition queryPrometheus :: "prom_body http \<Rightarrow> exn + prom_result" where
  "queryPrometheus reply =
     (case queryPrometheus_try reply of
        Inr r \<Rightarrow> Inr r
      | Inl error \<Rightarrow>
          (case message error of
             Inl e \<Rightarrow> Inl e
           | Inr m \<Rightarrow> Inr (PromFail m)))"

text \<open>
  An entry of the activity snapshot built by \<open>queryActiveKeys\<close>: the own properties of the
  plain object \<open>activeKeys\<close>, keyed by the \<open>access_key\<close> label.
\<close>

record active_info =
  totalBytes :: double
  latest :: timestamp

type_synonym snapshot = "string \<rightharpoonup> active_info"

text \<open>
  The properties that a plain object inherits from \<open>Object.prototype\<close>. Each of them reads
  as a function or an object, so \<open>!activeKeys[accessKey]\<close> is false for these labels and no
  own property is created; the addition lands on the inherited value and the comparison
  with its missing \<open>lastSeen\<close> is false.
\<close>

definition prototype_names :: "string list" where
  "prototype_names =
     [''constructor'', ''__defineGetter__'', ''__defineSetter__'', ''hasOwnProperty'',
      ''__lookupGetter__'', ''__lookupSetter__'', ''isPrototypeOf'', ''propertyIsEnumerable'',
      ''toString'', ''valueOf'', ''__proto__'', ''toLocaleString'']"

text \<open>
  The snapshot holds time stamps as the strings \<open>toISOString\<close> returns and compares them
  as strings. A year from 0000 to 9999 is written with four digits, a later year with
  \<open>+\<close> and six digits, an earlier one with \<open>-\<close> and six digits, and \<open>+\<close> sorts before \<open>-\<close>,
  which sorts before the digits. Among the strings of one kind the order is that of the
  instants, except that of two negative years the one further from zero sorts higher.
  \<open>year_of\<close> is the year of the proleptic Gregorian calendar, in UTC.
\<close>

definition year_of :: "timestamp \<Rightarrow> int" where
  "year_of t =
     (let z = t div 86400000 + 719468;
          era = z div 146097;
          doe = z - era * 146097;
          yoe = (doe - doe div 1460 + doe div 36524 - doe div 146096) div 365;
          doy = doe - (365 * yoe + yoe div 4 - yoe div 100);
          mp = (5 * doy + 2) div 153
      in yoe + era * 400 + (if mp < 10 then 0 else 1))"

definition year_0000 :: timestamp where
  "year_0000 = - 62167219200000"

definition year_10000 :: timestamp where
  "year_10000 = 253402300800000"

definition iso_kind :: "timestamp \<Rightarrow> nat" where
  "iso_kind t = (if year_10000 \<le> t then 0 else if t < year_0000 then 1 else 2)"

definition iso_gt :: "timestamp \<Rightarrow> timestamp \<Rightarrow> bool" where
  "iso_gt a b =
     (if iso_kind a \<noteq> iso_kind b then iso_kind b < iso_kind a
      else if iso_kind a = 1 then year_of a < year_of b \<or> (year_of a = year_of b \<and> b < a)
      else b < a)"

text \<open>
  The body of the \<open>forEach\<close> callback. An empty label is falsy and fails the shape test;
  \<open>toISOString\<close> throws a RangeError on an invalid date, before anything is stored.
\<close>

fun add_item :: "prom_item \<Rightarrow> snapshot \<Rightarrow> exn + snapshot" where
  "add_item Unusable activeKeys = Inr activeKeys"
| "add_item (Sample accessKey t bytes) activeKeys =
     (if accessKey = [] then Inr activeKeys
      else case t of
        None \<Rightarrow> Inl (Error ''Invalid time value'')
      | Some ts \<Rightarrow>
          if accessKey \<in> set prototype_names then Inr activeKeys
          else
            let cur = (case activeKeys accessKey of
                         None \<Rightarrow> \<lparr>totalBytes = Finite 0, latest = ts\<rparr>
                       | Some a \<Rightarrow> a);
                cur1 = cur\<lparr>totalBytes := double_add (totalBytes cur) bytes\<rparr>;
                cur2 = (if iso_gt ts (latest cur1) then cur1\<lparr>latest := ts\<rparr> else cur1)
            in Inr (activeKeys(accessKey \<mapsto> cur2)))"

fun forEach_items :: "prom_item list \<Rightarrow> snapshot \<Rightarrow> exn + snapshot" where
  "forEach_items [] activeKeys = Inr activeKeys"
| "forEach_items (item # items) activeKeys =
     (case add_item item activeKeys of
        Inl e \<Rightarrow> Inl e
      | Inr activeKeys' \<Rightarrow> forEach_items items activeKeys')"

datatype active_result = Success snapshot | Failure string

definition queryActiveKeys_try :: "env \<Rightarrow> string \<Rightarrow> exn + active_result" where
  "queryActiveKeys_try E promApiEndpoint =
     (case retry (\<lambda>i. queryPrometheus (prometheus E promApiEndpoint i)) (MAX_RETRIES (cfg E)) of
        Inl e \<Rightarrow> Inl e
      | Inr (PromFail m) \<Rightarrow> Inr (Failure (''Prometheus query unsuccessful: '' @ m))
      | Inr (PromOk None) \<Rightarrow> Inr (Failure ''Unexpected Prometheus response structure'')
      | Inr (PromOk (Some items)) \<Rightarrow>
          (case forEach_items items Map.empty of
             Inl e \<Rightarrow> Inl e
           | Inr activeKeys \<Rightarrow> Inr (Success activeKeys)))"

definition queryActiveKeys :: "env \<Rightarrow> string \<Rightarrow> exn + active_result" where
  "queryActiveKeys E promApiEndpoint =
     (case queryActiveKeys_try E promApiEndpoint of
        Inr r \<Rightarrow> Inr r
      | Inl error \<Rightarrow>
          (case message error of
             Inl e \<Rightarrow> Inl e
           | Inr m \<Rightarrow> Inr (Failure (''Error querying Prometheus: '' @ m))))"

section \<open>Reconciliation: \<open>handlers/update.js\<close>\<close>

text \<open>
  An entry of \<open>updatedKeys\<close>: the key and, where the source reports them, the record
  before and after. The \<open>changes\<close> summary and the debug information are derived from
  these and are left out, as is the \<open>X-Debug\<close> flag that only adds them.
\<close>

record key_update =
  ku_key :: string
  ku_before :: "keydata option"
  ku_after :: "keydata option"

record updateResults =
  updatedKeys :: "key_update list"
  errors :: "string list"
  nextCursor :: "string option"

text \<open>The try block of \<open>processKey\<close>.\<close>

definition processKey_try ::
  "env \<Rightarrow> string \<Rightarrow> snapshot \<Rightarrow> bool \<Rightarrow> world \<Rightarrow> updateResults \<Rightarrow> (exn + unit) \<times> world \<times> updateResults" where
  "processKey_try E k activeKeys isDryRun w res =
     (case retry (ak_get_parse E w k) (MAX_RETRIES (cfg E)) of
        Inl e \<Rightarrow> (Inl e, w, res)
      | Inr None \<Rightarrow> (Inl (Error ''Cannot read properties of null (reading deletionTime)''), w, res)
      | Inr (Some keyData) \<Rightarrow>
          let updatedKeyData = keyData
                \<lparr>deletionTime := or_null (deletionTime keyData),
                 lastSeen := or_null (lastSeen keyData),
                 currentlyConnected := or_null (currentlyConnected keyData)\<rparr>;
              needsUpdate = (keyData \<noteq> updatedKeyData)
          in
          if needsUpdate then
            (if isDryRun then
               (Inr (), w, res\<lparr>updatedKeys := updatedKeys res @
                  [\<lparr>ku_key = k, ku_before = Some keyData, ku_after = Some updatedKeyData\<rparr>]\<rparr>)
             else
               (case ak_put E k updatedKeyData w of
                  (Inl e, w1) \<Rightarrow> (Inl e, w1, res)
                | (Inr u, w1) \<Rightarrow>
                    (Inr (), w1, res\<lparr>updatedKeys := updatedKeys res @
                       [\<lparr>ku_key = k, ku_before = None, ku_after = None\<rparr>]\<rparr>)))
          else if (case deletionTime updatedKeyData of Val t \<Rightarrow> True | _ \<Rightarrow> False) then
            (Inr (), w, res)
          else
            let accessKeyId = last (js_split ''-'' k);
                isActive = (case activeKeys accessKeyId of
                              None \<Rightarrow> False
                            | Some a \<Rightarrow> double_gt (totalBytes a) (Finite 0));
                finalKeyData = updatedKeyData
                  \<lparr>currentlyConnected := Val isActive,
                   lastSeen := (case activeKeys accessKeyId of
                                  None \<Rightarrow> lastSeen updatedKeyData
                                | Some a \<Rightarrow> if isActive then Val (latest a)
                                            else lastSeen updatedKeyData)\<rparr>;
                hasChanges = (isActive \<or> currentlyConnected updatedKeyData \<noteq> Val isActive
                              \<or> (isActive \<and> lastSeen updatedKeyData \<noteq> lastSeen finalKeyData));
                keyUpdateInfo = \<lparr>ku_key = k, ku_before = Some updatedKeyData,
                                 ku_after = Some finalKeyData\<rparr>
            in
            if hasChanges then
              (if isDryRun then
                 (Inr (), w, res\<lparr>updatedKeys := updatedKeys res @ [keyUpdateInfo]\<rparr>)
               else
                 (case ak_put E k finalKeyData w of
                    (Inl e, w1) \<Rightarrow> (Inl e, w1, res)
                  | (Inr u, w1) \<Rightarrow>
                      (Inr (), w1, res\<lparr>updatedKeys := updatedKeys res @ [keyUpdateInfo]\<rparr>)))
            else (Inr (), w, res))"

text \<open>
  \<open>processKey\<close>: the catch block records the failure under \<open>errors\<close>; an exception
  leaves \<open>processKey\<close> only when reading the message throws.
\<close>

definition processKey ::
  "env \<Rightarrow> string \<Rightarrow> snapshot \<Rightarrow> bool \<Rightarrow> world \<Rightarrow> updateResults \<Rightarrow> exn option \<times> world \<times> updateResults" where
  "processKey E k activeKeys isDryRun w res =
     (case processKey_try E k activeKeys isDryRun w res of
        (Inr u, w1, res1) \<Rightarrow> (None, w1, res1)
      | (Inl error, w1, res1) \<Rightarrow>
          (case message error of
             Inl e \<Rightarrow> (Some e, w1, res1)
           | Inr m \<Rightarrow>
               (None, w1, res1\<lparr>errors := errors res1 @ [''Error processing key '' @ k @ '': '' @ m]\<rparr>)))"

text \<open>The \<open>for\<close> loop of \<open>processKeysForHostname\<close> over one page of keys.\<close>

fun processPage ::
  "env \<Rightarrow> snapshot \<Rightarrow> bool \<Rightarrow> string list \<Rightarrow> int \<Rightarrow> int \<Rightarrow> world \<Rightarrow> updateResults
   \<Rightarrow> exn option \<times> int \<times> int \<times> world \<times> updateResults" where
  "processPage E activeKeys isDryRun [] processedKeys remainingKeys w res =
     (None, processedKeys, remainingKeys, w, res)"
| "processPage E activeKeys isDryRun (k # ks) processedKeys remainingKeys w res =
     (case processKey E k activeKeys isDryRun w res of
        (Some e, w1, res1) \<Rightarrow> (Some e, processedKeys, remainingKeys, w1, res1)
      | (None, w1, res1) \<Rightarrow>
          if remainingKeys - 1 \<le> 0 then (None, processedKeys + 1, remainingKeys - 1, w1, res1)
          else processPage E activeKeys isDryRun ks (processedKeys + 1) (remainingKeys - 1) w1 res1)"

text \<open>What a successful listing says about the cursors.\<close>

definition remaining_keys :: "env \<Rightarrow> string \<Rightarrow> string option \<Rightarrow> nat" where
  "remaining_keys E pre cursor =
     length (filter (\<lambda>k. startsWith k pre) (ak_names E))
       - (case offset_of cursor of None \<Rightarrow> 0 | Some n \<Rightarrow> n)"

lemma retry_loop_Inr:
  "fst (retry_loop n i fn e0) = Inr x \<Longrightarrow> \<exists>j. fn j = Inr x"
proof (induction n arbitrary: i e0)
  case 0
  then show ?case by simp
next
  case (Suc n)
  show ?case
  proof (cases "fn i")
    case (Inl e)
    with Suc.prems have "fst (retry_loop n (Suc i) fn e) = Inr x" by simp
    then show ?thesis by (rule Suc.IH)
  next
    case (Inr v)
    with Suc.prems have "v = x" by simp
    with Inr show ?thesis by blast
  qed
qed

lemma retry_Inr: "retry fn n = Inr x \<Longrightarrow> \<exists>j. fn j = Inr x"
  unfolding retry_def by (rule retry_loop_Inr)

lemma offset_of_token: "offset_of (Some (token n)) = Some n"
  by (simp add: offset_of_def token_def)

lemma kv_list_advances:
  assumes "kv_list names pre cursor limit = Inr (ks, Some c)"
  shows "\<exists>off. offset_of cursor = Some off \<and> offset_of (Some c) = Some (off + nat limit)
           \<and> off + nat limit < length (filter (\<lambda>k. startsWith k pre) names) \<and> 1 \<le> limit"
  using assms
  by (auto simp: kv_list_def Let_def offset_of_token split: if_splits option.splits)

lemma listing_advances:
  assumes "retry (ak_list E pre cursor limit) n = Inr (ks, Some c)"
  shows "remaining_keys E pre (Some c) < remaining_keys E pre cursor"
proof -
  from retry_Inr [OF assms] obtain j where j: "ak_list E pre cursor limit j = Inr (ks, Some c)"
    by blast
  then have "kv_list (ak_names E) pre cursor limit = Inr (ks, Some c)"
    by (simp add: ak_list_def split: option.splits)
  from kv_list_advances [OF this] show ?thesis
    by (auto simp: remaining_keys_def)
qed

text \<open>The \<open>do ... while (cursor && remainingKeys > 0)\<close> loop of \<open>processKeysForHostname\<close>.\<close>

function processKeysForHostname_loop ::
  "env \<Rightarrow> string \<Rightarrow> snapshot \<Rightarrow> bool \<Rightarrow> string option \<Rightarrow> int \<Rightarrow> int \<Rightarrow> world \<Rightarrow> updateResults
   \<Rightarrow> (exn + int \<times> string option) \<times> world \<times> updateResults" where
  "processKeysForHostname_loop E hostname activeKeys isDryRun cursor processedKeys remainingKeys w res =
     (case retry (ak_list E (hostname @ ''-key-'') cursor (min remainingKeys 1000))
             (MAX_RETRIES (cfg E)) of
        Inl e \<Rightarrow> (Inl e, w, res)
      | Inr (ks, None) \<Rightarrow>
          (case processPage E activeKeys isDryRun ks processedKeys remainingKeys w res of
             (Some e, p, r, w1, res1) \<Rightarrow> (Inl e, w1, res1)
           | (None, p, r, w1, res1) \<Rightarrow> (Inr (p, None), w1, res1))
      | Inr (ks, Some c) \<Rightarrow>
          (case processPage E activeKeys isDryRun ks processedKeys remainingKeys w res of
             (Some e, p, r, w1, res1) \<Rightarrow> (Inl e, w1, res1)
           | (None, p, r, w1, res1) \<Rightarrow>
               if c \<noteq> [] \<and> 0 < r
               then processKeysForHostname_loop E hostname activeKeys isDryRun (Some c) p r w1 res1
               else (Inr (p, Some c), w1, res1)))"
  by pat_completeness auto
termination
  by (relation "measure (\<lambda>(E, hostname, activeKeys, isDryRun, cursor, p, r, w, res).
        remaining_keys E (hostname @ ''-key-'') cursor)")
     (auto dest: listing_advances)

definition processKeysForHostname ::
  "env \<Rightarrow> string \<Rightarrow> snapshot \<Rightarrow> bool \<Rightarrow> world \<Rightarrow> updateResults \<Rightarrow> int \<Rightarrow> string option
   \<Rightarrow> (exn + int \<times> string option) \<times> world \<times> updateResults" where
  "processKeysForHostname E hostname activeKeys isDryRun w res remainingKeys startCursor =
     processKeysForHostname_loop E hostname activeKeys isDryRun startCursor 0 remainingKeys w res"

text \<open>A value of the endpoint store is falsy when it is missing or the empty string.\<close>

fun falsy_entry :: "endpoint_entry option \<Rightarrow> bool" where
  "falsy_entry None = True"
| "falsy_entry (Some (EpRaw s)) = (s = [])"
| "falsy_entry (Some (EpJson a p)) = False"

text \<open>
  One turn of the \<open>for\<close> loop of \<open>updateAccessKeys\<close>, inside its try block. The result
  says whether the loop breaks, and gives \<open>currentCursor\<close> and \<open>globalKeyCount\<close> after the
  turn (a \<open>continue\<close> leaves both as they were).
\<close>

definition updateHost_try ::
  "env \<Rightarrow> bool \<Rightarrow> string \<Rightarrow> string option \<Rightarrow> int \<Rightarrow> world \<Rightarrow> updateResults
   \<Rightarrow> (exn + bool \<times> string option \<times> int) \<times> world \<times> updateResults" where
  "updateHost_try E isDryRun hostname currentCursor globalKeyCount w res =
     (case retry (ep_get E hostname) (MAX_RETRIES (cfg E)) of
        Inl e \<Rightarrow> (Inl e, w, res)
      | Inr endpointDataStr \<Rightarrow>
          if falsy_entry endpointDataStr then
            (Inr (False, currentCursor, globalKeyCount), w,
             res\<lparr>errors := errors res @ [''Endpoint not found for hostname: '' @ hostname]\<rparr>)
          else
            (case endpointDataStr of
               Some (EpJson apiUrl prometheusUrl) \<Rightarrow>
                 (case queryActiveKeys E (template prometheusUrl) of
                    Inl e \<Rightarrow> (Inl e, w, res)
                  | Inr (Failure m) \<Rightarrow>
                      (Inr (False, currentCursor, globalKeyCount), w,
                       res\<lparr>errors := errors res @
                         [''Error querying active keys for '' @ hostname @ '': '' @ m]\<rparr>)
                  | Inr (Success activeKeys) \<Rightarrow>
                      (case processKeysForHostname E hostname activeKeys isDryRun w res
                              (MAX_KEYS_PER_RUN (cfg E) - globalKeyCount) currentCursor of
                         (Inl e, w1, res1) \<Rightarrow> (Inl e, w1, res1)
                       | (Inr (processedKeys, nxt), w1, res1) \<Rightarrow>
                           if MAX_KEYS_PER_RUN (cfg E) \<le> globalKeyCount + processedKeys then
                             (Inr (True, currentCursor, globalKeyCount + processedKeys), w1,
                              res1\<lparr>nextCursor := Some (hostname @ '':'' @ template nxt)\<rparr>)
                           else (Inr (False, None, globalKeyCount + processedKeys), w1, res1)))
             | _ \<Rightarrow>
                 (Inr (False, currentCursor, globalKeyCount), w,
                  res\<lparr>errors := errors res @ [''Invalid endpoint data for hostname: '' @ hostname]\<rparr>)))"

fun updateAccessKeys_loop ::
  "env \<Rightarrow> bool \<Rightarrow> string list \<Rightarrow> string option \<Rightarrow> string option \<Rightarrow> int \<Rightarrow> world \<Rightarrow> updateResults
   \<Rightarrow> exn option \<times> world \<times> updateResults" where
  "updateAccessKeys_loop E isDryRun [] startHostname currentCursor globalKeyCount w res =
     (None, w, res)"
| "updateAccessKeys_loop E isDryRun (hostname # rest) startHostname currentCursor globalKeyCount w res =
     (if truthy_str startHostname \<and> Some hostname \<noteq> startHostname
      then updateAccessKeys_loop E isDryRun rest startHostname currentCursor globalKeyCount w res
      else
        (case updateHost_try E isDryRun hostname currentCursor globalKeyCount w res of
           (Inr (True, c, g), w1, res1) \<Rightarrow> (None, w1, res1)
         | (Inr (False, c, g), w1, res1) \<Rightarrow>
             updateAccessKeys_loop E isDryRun rest None c g w1 res1
         | (Inl error, w1, res1) \<Rightarrow>
             (case message error of
                Inl e \<Rightarrow> (Some e, w1, res1)
              | Inr m \<Rightarrow>
                  updateAccessKeys_loop E isDryRun rest None currentCursor globalKeyCount w1
                    (res1\<lparr>errors := errors res1 @
                       [''Error processing hostname '' @ hostname @ '': '' @ m]\<rparr>))))"

text \<open>\<open>[startHostname, currentCursor] = startCursor.split(':')\<close>, when \<open>startCursor\<close> is truthy.\<close>

definition split_cursor :: "string option \<Rightarrow> string option \<times> string option" where
  "split_cursor startCursor =
     (case startCursor of
        None \<Rightarrow> (None, None)
      | Some s \<Rightarrow>
          if s = [] then (None, None)
          else (case js_split '':'' s of
                  [] \<Rightarrow> (None, None)
                | [h] \<Rightarrow> (Some h, None)
                | h # c # _ \<Rightarrow> (Some h, Some c)))"

definition emptyResults :: updateResults where
  "emptyResults = \<lparr>updatedKeys = [], errors = [], nextCursor = None\<rparr>"

definition updateAccessKeys ::
  "env \<Rightarrow> bool \<Rightarrow> string option \<Rightarrow> world \<Rightarrow> exn option \<times> world \<times> updateResults" where
  "updateAccessKeys E isDryRun startCursor w =
     (case retry (ep_list E) (MAX_RETRIES (cfg E)) of
        Inl e \<Rightarrow> (Some e, w, emptyResults)
      | Inr hostnames \<Rightarrow>
          (case split_cursor startCursor of
             (startHostname, currentCursor) \<Rightarrow>
               updateAccessKeys_loop E isDryRun hostnames startHostname currentCursor 0 w emptyResults))"

text \<open>\<open>updateTargetKey\<close>: the try block, then the catch.\<close>

definition updateTargetKey_try ::
  "env \<Rightarrow> string \<Rightarrow> bool \<Rightarrow> world \<Rightarrow> updateResults \<Rightarrow> (exn + unit) \<times> world \<times> updateResults" where
  "updateTargetKey_try E targetKey isDryRun w res =
     (let hostname = hd (js_split ''-key-'' targetKey) in
      case retry (ep_get E hostname) (MAX_RETRIES (cfg E)) of
        Inl e \<Rightarrow> (Inl e, w, res)
      | Inr endpointDataStr \<Rightarrow>
          if falsy_entry endpointDataStr then
            (Inr (), w, res\<lparr>errors := errors res @ [''Endpoint not found for hostname: '' @ hostname]\<rparr>)
          else
            (case endpointDataStr of
               Some (EpJson apiUrl prometheusUrl) \<Rightarrow>
                 (case queryActiveKeys E (template prometheusUrl) of
                    Inl e \<Rightarrow> (Inl e, w, res)
                  | Inr (Failure m) \<Rightarrow>
                      (Inr (), w, res\<lparr>errors := errors res @
                         [''Error querying active keys for '' @ hostname @ '': '' @ m]\<rparr>)
                  | Inr (Success activeKeys) \<Rightarrow>
                      (case processKey E targetKey activeKeys isDryRun w res of
                         (Some e, w1, res1) \<Rightarrow> (Inl e, w1, res1)
                       | (None, w1, res1) \<Rightarrow> (Inr (), w1, res1)))
             | _ \<Rightarrow>
                 (Inr (), w, res\<lparr>errors := errors res @
                    [''Invalid endpoint data for hostname: '' @ hostname]\<rparr>)))"

definition updateTargetKey ::
  "env \<Rightarrow> string \<Rightarrow> bool \<Rightarrow> world \<Rightarrow> exn option \<times> world \<times> updateResults" where
  "updateTargetKey E targetKey isDryRun w =
     (case updateTargetKey_try E targetKey isDryRun w emptyResults of
        (Inr u, w1, res1) \<Rightarrow> (None, w1, res1)
      | (Inl error, w1, res1) \<Rightarrow>
          (case message error of
             Inl e \<Rightarrow> (Some e, w1, res1)
           | Inr m \<Rightarrow>
               (None, w1, res1\<lparr>errors := errors res1 @
                  [''Error processing target key '' @ targetKey @ '': '' @ m]\<rparr>)))"

text \<open>The request headers the handlers read, and \<open>verifyAuth\<close>.\<close>

record request =
  x_dry_run :: "string option"
  x_target_key :: "string option"
  x_target_server :: "string option"
  authorization :: "string option"

definition verifyAuth :: "request \<Rightarrow> string \<Rightarrow> bool" where
  "verifyAuth req authToken =
     (truthy_str (authorization req) \<and> authorization req = Some (''Bearer '' @ authToken))"

datatype 'r response = Response200 'r | Response401 | Response500 string

text \<open>
  What \<open>handleError(msg, 500, error)\<close> puts in its body; on a thrown \<open>undefined\<close> the
  details are left out.
\<close>

fun details :: "exn \<Rightarrow> string" where
  "details (Error m) = m"
| "details Undefined = []"

definition UPDATE_CURSOR_KEY :: string where
  "UPDATE_CURSOR_KEY = ''update_script_cursor''"

text \<open>
  The try block of the reconciliation entry point. A request without a dry-run header, and
  the scheduled trigger (no request), are not dry runs.
\<close>

definition update_run ::
  "env \<Rightarrow> bool \<Rightarrow> string option \<Rightarrow> world \<Rightarrow> exn option \<times> world \<times> updateResults" where
  "update_run E isDryRun targetKey w =
     (if truthy_str targetKey then
        (case targetKey of
           Some k \<Rightarrow> updateTargetKey E k isDryRun w
         | None \<Rightarrow> (None, w, emptyResults))
      else
        (case retry (st_get E w UPDATE_CURSOR_KEY) (MAX_RETRIES (cfg E)) of
           Inl e \<Rightarrow> (Some e, w, emptyResults)
         | Inr startCursor \<Rightarrow>
             (case updateAccessKeys E isDryRun startCursor w of
                (Some e, w1, res1) \<Rightarrow> (Some e, w1, res1)
              | (None, w1, res1) \<Rightarrow>
                  if \<not> isDryRun \<and> truthy_str (nextCursor res1) then
                    (case st_put E UPDATE_CURSOR_KEY (template (nextCursor res1)) w1 of
                       (Inl e, w2) \<Rightarrow> (Some e, w2, res1)
                     | (Inr u, w2) \<Rightarrow> (None, w2, res1))
                  else if \<not> isDryRun \<and> \<not> truthy_str (nextCursor res1) then
                    (case st_delete E UPDATE_CURSOR_KEY w1 of
                       (Inl e, w2) \<Rightarrow> (Some e, w2, res1)
                     | (Inr u, w2) \<Rightarrow> (None, w2, res1))
                  else (None, w1, res1))))"

definition update_isDryRun :: "request option \<Rightarrow> bool" where
  "update_isDryRun req = (case req of None \<Rightarrow> False | Some r \<Rightarrow> x_dry_run r = Some ''true'')"

definition update_handleRequest ::
  "env \<Rightarrow> request option \<Rightarrow> bool \<Rightarrow> world \<Rightarrow> updateResults response \<times> world" where
  "update_handleRequest E req isCronTriggered w =
     (let isDryRun = update_isDryRun req;
          targetKey = (case req of None \<Rightarrow> None | Some r \<Rightarrow> x_target_key r)
      in
      if \<not> isCronTriggered \<and> req = None then
        (Response500 ''Cannot read properties of null (reading headers)'', w)
      else if \<not> isCronTriggered \<and> \<not> (case req of None \<Rightarrow> False | Some r \<Rightarrow> verifyAuth r (AUTH_TOKEN (cfg E))) then
        (Response401, w)
      else
        (case update_run E isDryRun targetKey w of
           (Some e, w1, res1) \<Rightarrow> (Response500 (details e), w1)
         | (None, w1, res1) \<Rightarrow> (Response200 res1, w1)))"

section \<open>Revocation: the delete handler\<close>

datatype status = WouldDelete | Deleted | NotDeleted | ErrorStatus

text \<open>
  The report entry of one key. The \<open>reason\<close> text and the \<open>toFixed(2)\<close> rendering of the
  age are left out; \<open>ki_days\<close> is the age itself, \<open>None\<close> for \<open>NaN\<close>.
\<close>

record keyInfo =
  ki_key :: string
  ki_lastSeen :: "timestamp field"
  ki_days :: jsnum
  ki_currentlyConnected :: "bool field"
  ki_deletionTime :: "timestamp field"
  ki_status :: status
  ki_error :: "string option"
  ki_s3DeleteStatus :: "string option"

record deleteResults =
  processedKeys :: "keyInfo list"
  del_errors :: "string list"
  del_nextCursor :: "string option"

text \<open>
  \<open>new Date(x)\<close> for a stored time stamp: \<open>new Date(undefined)\<close> is an invalid date,
  \<open>new Date(null)\<close> is the epoch.
\<close>

fun new_Date :: "timestamp field \<Rightarrow> timestamp option" where
  "new_Date Absent = None"
| "new_Date Null = Some 0"
| "new_Date (Val t) = Some t"

definition daysSinceLastSeen :: "timestamp \<Rightarrow> keydata \<Rightarrow> jsnum" where
  "daysSinceLastSeen now keyData =
     (case new_Date (lastSeen keyData) of
        None \<Rightarrow> None
      | Some t \<Rightarrow> Some (of_int (now - t) / (1000 * 60 * 60 * 24)))"

text \<open>Truthiness of \<open>currentlyConnected\<close>.\<close>

fun truthy :: "bool field \<Rightarrow> bool" where
  "truthy (Val b) = b"
| "truthy _ = False"

definition shouldDelete :: "config \<Rightarrow> timestamp \<Rightarrow> keydata \<Rightarrow> bool" where
  "shouldDelete C now keyData =
     (js_gt (daysSinceLastSeen now keyData) (Some (EXPIRATION_DAYS C))
      \<and> \<not> truthy (currentlyConnected keyData))"

text \<open>\<open>sendDeleteRequest\<close>: never throws, reports the failure in its result.\<close>

fun sendDeleteRequest :: "unit http \<Rightarrow> string + unit" where
  "sendDeleteRequest (NetworkError m) = Inl m"
| "sendDeleteRequest (Status line body) = Inl (''Status: '' @ line @ '', Response: '' @ body)"
| "sendDeleteRequest (OkBody u) = Inr ()"

text \<open>
  The try block inside \<open>processKeyForDeletion\<close>, entered when the key is to be deleted
  and the run is not a dry run. It returns the report entry as it stands when the block
  is left. \<open>deleteFromMultipleS3\<close> throws \<open>Error\<close> objects only; \<open>s3_delete\<close> gives the
  message. \<open>delete_url\<close> is the address of the backend request, built from the endpoint
  entry (its \<open>apiUrl\<close>, or the bare text of an older entry) and the key name.
\<close>

definition delete_url :: "endpoint_entry option \<Rightarrow> string \<Rightarrow> string" where
  "delete_url endpointDataStr keyName =
     (let accessKey = (case js_split ''-key-'' keyName of h # a # _ \<Rightarrow> Some a | _ \<Rightarrow> None);
          apiEndpointUrl = (case endpointDataStr of
                              Some (EpJson apiUrl prometheusUrl) \<Rightarrow> apiUrl
                            | Some (EpRaw s) \<Rightarrow> Some s
                            | None \<Rightarrow> None)
      in template apiEndpointUrl @ ''/access-keys/'' @ template accessKey)"

definition delete_try ::
  "env \<Rightarrow> string \<Rightarrow> keydata \<Rightarrow> string list \<Rightarrow> keyInfo \<Rightarrow> world \<Rightarrow> exn option \<times> keyInfo \<times> world" where
  "delete_try E keyName keyData providers info w =
     (let hostname = hd (js_split ''-key-'' keyName) in
      case retry (ep_get E hostname) (MAX_RETRIES (cfg E)) of
        Inl e \<Rightarrow> (Some e, info, w)
      | Inr endpointDataStr \<Rightarrow>
          if falsy_entry endpointDataStr then
            (Some (Error (''API endpoint not found for hostname: '' @ hostname)), info, w)
          else
            let url = delete_url endpointDataStr keyName;
                w1 = w\<lparr>requests := requests w @ [BackendDelete url]\<rparr>
            in
            case sendDeleteRequest (backend_delete E url) of
              Inl err \<Rightarrow> (Some (Error (''Failed to delete key: '' @ err)), info, w1)
            | Inr u \<Rightarrow>
                let s3 = (DELETE_S3_OBJECTS (cfg E) \<and> s3Paths keyData \<noteq> [] \<and> providers \<noteq> []);
                    w2 = (if s3 then w1\<lparr>requests := requests w1 @ [S3Delete (s3Paths keyData)]\<rparr>
                          else w1);
                    info1 =
                      (if s3 then
                         (case s3_delete E (s3Paths keyData) of
                            Inr ok \<Rightarrow> info\<lparr>ki_s3DeleteStatus :=
                                        Some (if ok then ''Deleted'' else ''Partial failure'')\<rparr>
                          | Inl s3Error \<Rightarrow> info\<lparr>ki_s3DeleteStatus := Some ''Failed''\<rparr>)
                       else if s3Paths keyData \<noteq> [] then
                         info\<lparr>ki_s3DeleteStatus := Some ''Skipped (S3 deletion disabled)''\<rparr>
                       else info);
                    keyData1 = keyData\<lparr>deletionTime := Val (clock E), currentlyConnected := Null\<rparr>
                in
                case ak_put E keyName keyData1 w2 of
                  (Inl e, w3) \<Rightarrow> (Some e, info1, w3)
                | (Inr u, w3) \<Rightarrow>
                    (None, info1\<lparr>ki_deletionTime := deletionTime keyData1,
                                ki_currentlyConnected := currentlyConnected keyData1\<rparr>, w3))"

text \<open>
  \<open>processKeyForDeletion\<close>. The record is \<open>None\<close> when the caller parsed \<open>null\<close>; reading
  \<open>keyData.lastSeen\<close> then throws, outside the try block.
\<close>

definition processKeyForDeletion ::
  "env \<Rightarrow> string \<Rightarrow> keydata option \<Rightarrow> bool \<Rightarrow> string list \<Rightarrow> world \<Rightarrow> deleteResults
   \<Rightarrow> exn option \<times> world \<times> deleteResults" where
  "processKeyForDeletion E keyName parsed isDryRun providers w res =
     (case parsed of
        None \<Rightarrow> (Some (Error ''Cannot read properties of null (reading lastSeen)''), w, res)
      | Some keyData \<Rightarrow>
          let info = \<lparr>ki_key = keyName, ki_lastSeen = lastSeen keyData,
                      ki_days = daysSinceLastSeen (clock E) keyData,
                      ki_currentlyConnected = currentlyConnected keyData,
                      ki_deletionTime = deletionTime keyData,
                      ki_status = NotDeleted, ki_error = None, ki_s3DeleteStatus = None\<rparr>
          in
          if shouldDelete (cfg E) (clock E) keyData then
            (if isDryRun then
               (None, w, res\<lparr>processedKeys := processedKeys res @ [info\<lparr>ki_status := WouldDelete\<rparr>]\<rparr>)
             else
               (case delete_try E keyName keyData providers (info\<lparr>ki_status := Deleted\<rparr>) w of
                  (None, info1, w1) \<Rightarrow>
                    (None, w1, res\<lparr>processedKeys := processedKeys res @ [info1]\<rparr>)
                | (Some error, info1, w1) \<Rightarrow>
                    (case message error of
                       Inl e \<Rightarrow> (Some e, w1, res)
                     | Inr m \<Rightarrow>
                         (None, w1, res\<lparr>processedKeys := processedKeys res @
                            [info1\<lparr>ki_status := ErrorStatus, ki_error := Some m\<rparr>]\<rparr>))))
          else (None, w, res\<lparr>processedKeys := processedKeys res @ [info]\<rparr>))"



text \<open>
  The \<open>for\<close> loop of \<open>processKeysForServer\<close> over one page. Here the record is read
  without \<open>retry\<close>. The first component tells how the loop was left: by an exception, by
  the \<open>return\<close> at the budget, or at the end of the page.
\<close>

datatype page_exit = Thrown exn | Returned | PageDone

definition serverKey_try ::
  "env \<Rightarrow> string \<Rightarrow> bool \<Rightarrow> string list \<Rightarrow> world \<Rightarrow> deleteResults
   \<Rightarrow> exn option \<times> world \<times> deleteResults" where
  "serverKey_try E k isDryRun providers w res =
     (case ak_get_parse E w k 0 of
        Inl e \<Rightarrow> (Some e, w, res)
      | Inr parsed \<Rightarrow> processKeyForDeletion E k parsed isDryRun providers w res)"

fun serverPage ::
  "env \<Rightarrow> string \<Rightarrow> bool \<Rightarrow> string list \<Rightarrow> string option \<Rightarrow> string list \<Rightarrow> int \<Rightarrow> world
   \<Rightarrow> deleteResults \<Rightarrow> page_exit \<times> int \<times> world \<times> deleteResults" where
  "serverPage E targetServer isDryRun providers listCursor [] processedCount w res =
     (PageDone, processedCount, w, res)"
| "serverPage E targetServer isDryRun providers listCursor (k # ks) processedCount w res =
     (case serverKey_try E k isDryRun providers w res of
        (None, w1, res1) \<Rightarrow>
          if MAX_KEYS_PER_RUN (cfg E) \<le> processedCount + 1 then
            (Returned, processedCount + 1, w1,
             res1\<lparr>del_nextCursor := Some (targetServer @ '':'' @ template listCursor)\<rparr>)
          else serverPage E targetServer isDryRun providers listCursor ks (processedCount + 1) w1 res1
      | (Some error, w1, res1) \<Rightarrow>
          (case message error of
             Inl e \<Rightarrow> (Thrown e, processedCount, w1, res1)
           | Inr m \<Rightarrow>
               let res2 = res1\<lparr>del_errors := del_errors res1 @
                            [''Error processing key '' @ k @ '': '' @ m]\<rparr>
               in if MAX_KEYS_PER_RUN (cfg E) \<le> processedCount then
                    (Returned, processedCount, w1,
                     res2\<lparr>del_nextCursor := Some (targetServer @ '':'' @ template listCursor)\<rparr>)
                  else serverPage E targetServer isDryRun providers listCursor ks processedCount w1 res2))"

text \<open>The \<open>do ... while (cursor)\<close> loop of \<open>processKeysForServer\<close>.\<close>

function processKeysForServer_loop ::
  "env \<Rightarrow> string \<Rightarrow> bool \<Rightarrow> string list \<Rightarrow> string option \<Rightarrow> int \<Rightarrow> world \<Rightarrow> deleteResults
   \<Rightarrow> exn option \<times> world \<times> deleteResults" where
  "processKeysForServer_loop E targetServer isDryRun providers cursor processedCount w res =
     (case retry (ak_list E (targetServer @ ''-key-'') cursor
                    (min (MAX_KEYS_PER_RUN (cfg E) - processedCount) 1000))
             (MAX_RETRIES (cfg E)) of
        Inl e \<Rightarrow> (Some e, w, res)
      | Inr (ks, None) \<Rightarrow>
          (case serverPage E targetServer isDryRun providers None ks processedCount w res of
             (Thrown e, p, w1, res1) \<Rightarrow> (Some e, w1, res1)
           | (Returned, p, w1, res1) \<Rightarrow> (None, w1, res1)
           | (PageDone, p, w1, res1) \<Rightarrow> (None, w1, res1))
      | Inr (ks, Some c) \<Rightarrow>
          (case serverPage E targetServer isDryRun providers (Some c) ks processedCount w res of
             (Thrown e, p, w1, res1) \<Rightarrow> (Some e, w1, res1)
           | (Returned, p, w1, res1) \<Rightarrow> (None, w1, res1)
           | (PageDone, p, w1, res1) \<Rightarrow>
               if c \<noteq> []
               then processKeysForServer_loop E targetServer isDryRun providers (Some c) p w1 res1
               else (None, w1, res1)))"
  by pat_completeness auto
termination
  by (relation "measure (\<lambda>(E, targetServer, isDryRun, providers, cursor, p, w, res).
        remaining_keys E (targetServer @ ''-key-'') cursor)")
     (auto dest: listing_advances)

definition emptyDeleteResults :: deleteResults where
  "emptyDeleteResults = \<lparr>processedKeys = [], del_errors = [], del_nextCursor = None\<rparr>"

definition processKeysForServer ::
  "env \<Rightarrow> string \<Rightarrow> bool \<Rightarrow> string list \<Rightarrow> world \<Rightarrow> exn option \<times> world \<times> deleteResults" where
  "processKeysForServer E targetServer isDryRun providers w =
     processKeysForServer_loop E targetServer isDryRun providers None 0 w emptyDeleteResults"

text \<open>
  \<open>processAllKeys\<close> destructures the report of \<open>processKeysForServer\<close> into
  \<open>processedKeys\<close> (the array of entries) and \<open>nextCursor\<close>, and then reads
  \<open>processedKeys.errors\<close>: an array has no such property, so the value is \<open>undefined\<close>,
  and spreading \<open>undefined\<close> into \<open>push\<close> throws a TypeError.
\<close>

definition array_errors :: "keyInfo list \<Rightarrow> string list option" where
  "array_errors arr = None"

fun spread :: "'a list option \<Rightarrow> exn + 'a list" where
  "spread None = Inl (Error ''undefined is not iterable'')"
| "spread (Some xs) = Inr xs"

text \<open>The text of \<open>${nextCursor}\<close> for a value that is \<open>null\<close> or a string.\<close>

fun template_null :: "string option \<Rightarrow> string" where
  "template_null None = ''null''"
| "template_null (Some s) = s"

text \<open>One turn of the \<open>for\<close> loop of \<open>processAllKeys\<close>, inside its try block.\<close>

definition allHost_try ::
  "env \<Rightarrow> bool \<Rightarrow> string list \<Rightarrow> string \<Rightarrow> string option \<Rightarrow> int \<Rightarrow> world \<Rightarrow> deleteResults
   \<Rightarrow> (exn + bool \<times> string option \<times> int) \<times> world \<times> deleteResults" where
  "allHost_try E isDryRun providers hostname currentCursor globalKeyCount w res =
     (case processKeysForServer E hostname isDryRun providers w of
        (Some e, w1, r) \<Rightarrow> (Inl e, w1, res)
      | (None, w1, r) \<Rightarrow>
          let arr = processedKeys r;
              nxt = del_nextCursor r;
              res1 = res\<lparr>processedKeys := processedKeys res @ arr\<rparr>
          in
          case spread (array_errors arr) of
            Inl e \<Rightarrow> (Inl e, w1, res1)
          | Inr errs \<Rightarrow>
              let res2 = res1\<lparr>del_errors := del_errors res1 @ errs\<rparr>;
                  g = globalKeyCount + int (length arr)
              in
              if MAX_KEYS_PER_RUN (cfg E) \<le> g then
                (Inr (True, currentCursor, g), w1,
                 res2\<lparr>del_nextCursor := Some (hostname @ '':'' @ template_null nxt)\<rparr>)
              else (Inr (False, None, g), w1, res2))"

fun processAllKeys_loop ::
  "env \<Rightarrow> bool \<Rightarrow> string list \<Rightarrow> string list \<Rightarrow> string option \<Rightarrow> string option \<Rightarrow> int \<Rightarrow> world
   \<Rightarrow> deleteResults \<Rightarrow> exn option \<times> world \<times> deleteResults" where
  "processAllKeys_loop E isDryRun providers [] startHostname currentCursor globalKeyCount w res =
     (None, w, res)"
| "processAllKeys_loop E isDryRun providers (hostname # rest) startHostname currentCursor
       globalKeyCount w res =
     (if truthy_str startHostname \<and> Some hostname \<noteq> startHostname
      then processAllKeys_loop E isDryRun providers rest startHostname currentCursor
             globalKeyCount w res
      else
        (case allHost_try E isDryRun providers hostname currentCursor globalKeyCount w res of
           (Inr (True, c, g), w1, res1) \<Rightarrow> (None, w1, res1)
         | (Inr (False, c, g), w1, res1) \<Rightarrow>
             processAllKeys_loop E isDryRun providers rest None c g w1 res1
         | (Inl error, w1, res1) \<Rightarrow>
             (case message error of
                Inl e \<Rightarrow> (Some e, w1, res1)
              | Inr m \<Rightarrow>
                  processAllKeys_loop E isDryRun providers rest None currentCursor globalKeyCount w1
                    (res1\<lparr>del_errors := del_errors res1 @
                       [''Error processing hostname '' @ hostname @ '': '' @ m]\<rparr>))))"

definition processAllKeys ::
  "env \<Rightarrow> bool \<Rightarrow> string option \<Rightarrow> string list \<Rightarrow> world \<Rightarrow> exn option \<times> world \<times> deleteResults" where
  "processAllKeys E isDryRun startCursor providers w =
     (case retry (ep_list E) (MAX_RETRIES (cfg E)) of
        Inl e \<Rightarrow> (Some e, w, emptyDeleteResults)
      | Inr hostnames \<Rightarrow>
          (case split_cursor startCursor of
             (startHostname, currentCursor) \<Rightarrow>
               processAllKeys_loop E isDryRun providers hostnames startHostname currentCursor 0 w
                 emptyDeleteResults))"





section \<open>Endpoint scorer: \<open>getOptimalApiEndpoint\<close> of the get handler\<close>

text \<open>
  The outcome of the probe of one backend, that is of one callback of
  \<open>endpoints.keys.map\<close>:

  \<^item> \<open>NoEntry\<close>: \<open>namespace.get\<close> resolves to a falsy value and the callback returns;
  \<^item> \<open>ReadRejected\<close>: \<open>namespace.get\<close> rejects; the read is outside the callback's \<open>try\<close>,
    so the promise of the callback rejects;
  \<^item> \<open>TimedOut\<close>, \<open>FetchFailed\<close>: \<open>fetch\<close> rejects, by the abort or otherwise;
  \<^item> \<open>BadStatus\<close>: the reply is not \<open>ok\<close>;
  \<^item> \<open>BadBody\<close>: \<open>response.json()\<close> rejects, or \<open>accessKeys.accessKeys\<close> is
    \<open>undefined\<close> or \<open>null\<close>, so that reading its \<open>length\<close> throws inside the \<open>try\<close>;
  \<^item> \<open>Measured latency count\<close>: the reply is \<open>ok\<close>; \<open>latency\<close> is the elapsed time in
    milliseconds and \<open>count\<close> is \<open>accessKeys.accessKeys.length\<close> as the multiplication reads
    it: the length of the array, or \<open>NaN\<close> where the value has no numeric \<open>length\<close>.

  The probes run concurrently; the list given to the scorer is in the order in which
  they settle.
\<close>

datatype probe =
    NoEntry | ReadRejected | TimedOut | FetchFailed | BadStatus | BadBody
  | Measured rat double

text \<open>
  \<open>WEIGHT_LATENCY * latency + WEIGHT_ACCESS_KEY_COUNT * accessKeyCount\<close>. The configuration
  gives the weights as decimal numerals; the constants and the measured latency are the
  nearest doubles.
\<close>

definition score :: "config \<Rightarrow> rat \<Rightarrow> double \<Rightarrow> double" where
  "score C latency accessKeyCount =
     double_add (double_mul (round_double (WEIGHT_LATENCY C)) (round_double latency))
                (double_mul (round_double (WEIGHT_ACCESS_KEY_COUNT C)) accessKeyCount)"

text \<open>
  \<open>await Promise.all(fetchPromises)\<close> inside \<open>try\<close>: the wait ends when every callback has
  returned, or as soon as one of them rejects. The rejection is logged, and the function
  goes on with the scores pushed so far; callbacks that settle later push too late.
\<close>

definition settled_at_join :: "(string \<times> probe) list \<Rightarrow> (string \<times> probe) list" where
  "settled_at_join probes = takeWhile (\<lambda>p. snd p \<noteq> ReadRejected) probes"

fun probe_scores :: "config \<Rightarrow> (string \<times> probe) list \<Rightarrow> (string \<times> double) list" where
  "probe_scores C [] = []"
| "probe_scores C ((endpoint, Measured latency accessKeyCount) # ps) =
     (endpoint, score C latency accessKeyCount) # probe_scores C ps"
| "probe_scores C ((endpoint, _) # ps) = probe_scores C ps"

text \<open>
  The comparator \<open>(a, b) => a.score - b.score\<close> as \<open>Array.prototype.sort\<close> reads it: the
  sign of the difference, a \<open>NaN\<close> counting as \<open>+0\<close>.
\<close>

definition compare_scores :: "double \<Rightarrow> double \<Rightarrow> int" where
  "compare_scores a b =
     (case double_sub a b of
        Finite d \<Rightarrow> (if d < 0 then - 1 else if d = 0 then 0 else 1)
      | PosInfinity \<Rightarrow> 1
      | NegInfinity \<Rightarrow> - 1
      | NaN \<Rightarrow> 0)"

text \<open>
  The sort is stable. With a comparator that is consistent on the array its result is
  the one of stable insertion; otherwise the language leaves the order to the engine.
  The comparator above is consistent when no score is \<open>NaN\<close>, and also when it finds all
  scores equal.
\<close>

fun insert_score :: "string \<times> double \<Rightarrow> (string \<times> double) list \<Rightarrow> (string \<times> double) list" where
  "insert_score x [] = [x]"
| "insert_score x (y # ys) =
     (if compare_scores (snd x) (snd y) \<le> 0 then x # y # ys else y # insert_score x ys)"

definition sort_scores :: "(string \<times> double) list \<Rightarrow> (string \<times> double) list" where
  "sort_scores xs = foldr insert_score xs []"

definition consistent_scores :: "double list \<Rightarrow> bool" where
  "consistent_scores ss =
     (list_all (\<lambda>s. s \<noteq> NaN) ss
      \<or> list_all (\<lambda>a. list_all (\<lambda>b. compare_scores a b = 0) ss) ss)"

text \<open>
  What the function returns: an endpoint, or one of several that the engine's sort
  order decides. \<open>namespace.list()\<close> is awaited outside any \<open>try\<close>; its rejection is the
  function's.
\<close>

datatype choice = Endpoint string | EngineDefined "string list"

definition getOptimalApiEndpoint :: "config \<Rightarrow> exn + (string \<times> probe) list \<Rightarrow> exn + choice" where
  "getOptimalApiEndpoint C listing =
     (case listing of
        Inl e \<Rightarrow> Inl e
      | Inr probes \<Rightarrow>
          let endpointScores = probe_scores C (settled_at_join probes) in
          if length endpointScores = 0 then Inl (Error ''No available API endpoints.'')
          else if consistent_scores (map snd endpointScores)
          then Inr (Endpoint (fst (hd (sort_scores endpointScores))))
          else Inr (EngineDefined (map fst endpointScores)))"

section \<open>Notions used to state the properties\<close>

text \<open>
  The activity flag \<open>isActive\<close> that \<open>processKey\<close> computes for a key, the record
  \<open>finalKeyData\<close> it derives from a stored record, and the records that need no backfill.
\<close>

definition isActive :: "snapshot \<Rightarrow> string \<Rightarrow> bool" where
  "isActive activeKeys k =
     (case activeKeys (last (js_split ''-'' k)) of
        None \<Rightarrow> False
      | Some a \<Rightarrow> double_gt (totalBytes a) (Finite 0))"

definition finalKeyData :: "snapshot \<Rightarrow> string \<Rightarrow> keydata \<Rightarrow> keydata" where
  "finalKeyData activeKeys k d =
     d\<lparr>currentlyConnected := Val (isActive activeKeys k),
       lastSeen := (case activeKeys (last (js_split ''-'' k)) of
                      None \<Rightarrow> lastSeen d
                    | Some a \<Rightarrow> if isActive activeKeys k then Val (latest a) else lastSeen d)\<rparr>"

definition all_present :: "keydata \<Rightarrow> bool" where
  "all_present d = (deletionTime d \<noteq> Absent \<and> lastSeen d \<noteq> Absent \<and> currentlyConnected d \<noteq> Absent)"




fun valid_times :: "prom_item list \<Rightarrow> bool" where
  "valid_times [] = True"
| "valid_times (Sample k None b # items) = (k = [] \<and> valid_times items)"
| "valid_times (_ # items) = valid_times items"








text \<open>
  Notions for comparing a dry run with a live run. \<open>errors_only\<close> says that at least one
  attempt is allowed and that a failing store operation throws an \<open>Error\<close> object;
  \<open>lists_answered\<close> that no listing of \<open>ACCESS_KEYS_NAMESPACE\<close> fails. \<open>reported\<close> are the keys
  listed under \<open>updatedKeys\<close>, \<open>would_delete\<close> the keys listed with the status
  \<open>Would delete\<close>. \<open>dry_covers w rd wl\<close> relates the world \<open>w\<close> and the report \<open>rd\<close> of a dry
  run to the world \<open>wl\<close> of a live run started from \<open>w\<close>: every record that differs and
  every put that was added belongs to a reported key.
\<close>

definition errors_only :: "env \<Rightarrow> bool" where
  "errors_only E = (0 < MAX_RETRIES (cfg E) \<and> (\<forall>op i. fault E op i \<noteq> Some Undefined))"

definition lists_answered :: "env \<Rightarrow> bool" where
  "lists_answered E = (\<forall>pre i. fault E (AkList pre) i = None)"

definition reported :: "updateResults \<Rightarrow> string set" where
  "reported res = ku_key ` set (updatedKeys res)"

definition would_delete :: "deleteResults \<Rightarrow> string set" where
  "would_delete res = ki_key ` {i \<in> set (processedKeys res). ki_status i = WouldDelete}"

definition dry_covers :: "world \<Rightarrow> updateResults \<Rightarrow> world \<Rightarrow> bool" where
  "dry_covers w rd wl =
     ((\<forall>k. access_keys wl k = access_keys w k \<or> k \<in> reported rd)
      \<and> (\<forall>e \<in> set (requests wl). e \<in> set (requests w) \<or> (\<exists>k \<in> reported rd. \<exists>d. e = KvPut k d)))"

text \<open>
  The keys that a run writes: those whose record differs afterwards and those for which
  a put was sent, also when the put failed.
\<close>

definition written :: "world \<Rightarrow> world \<Rightarrow> string set" where
  "written w w' =
     {k. access_keys w' k \<noteq> access_keys w k
         \<or> (\<exists>d. KvPut k d \<in> set (requests w') \<and> KvPut k d \<notin> set (requests w))}"

section \<open>Concrete configurations used in the witnesses\<close>

definition example_cfg :: config where
  "example_cfg = \<lparr>MAX_RETRIES = 2, MAX_KEYS_PER_RUN = 1, EXPIRATION_DAYS = 90,
     DELETE_DRY_RUN = True, DELETE_S3_OBJECTS = False, AUTH_TOKEN = ''secret'',
     WEIGHT_LATENCY = 4 / 5, WEIGHT_ACCESS_KEY_COUNT = 1 / 5\<rparr>"

definition example_env :: env where
  "example_env = \<lparr>cfg = example_cfg, fault = (\<lambda>op i. None),
     ak_names = [''A-key-1'', ''B-key-1''],
     endpoints = [(''A'', EpJson (Some ''https://a'') (Some ''https://pa'')),
                  (''B'', EpJson (Some ''https://b'') (Some ''https://pb''))],
     prometheus = (\<lambda>u i. OkBody (Result [])), backend_delete = (\<lambda>u. OkBody ()),
     s3_delete = (\<lambda>ps. Inr True), s3Providers = [], clock = 20000 * 86400000\<rparr>"

definition idle91 :: keydata where
  "idle91 = \<lparr>creationTime = Val 0, deletionTime = Null, lastSeen = Val (19909 * 86400000),
            currentlyConnected = Val False, s3Paths = []\<rparr>"

definition example_world :: world where
  "example_world = \<lparr>access_keys = [''A-key-1'' \<mapsto> Record idle91, ''B-key-1'' \<mapsto> Record idle91],
     state_kv = Map.empty, requests = []\<rparr>"

definition failing_env :: env where
  "failing_env = example_env\<lparr>backend_delete := (\<lambda>u. NetworkError ''connection refused'')\<rparr>"

definition fresh :: keydata where
  "fresh = \<lparr>creationTime = Val (20000 * 86400000), deletionTime = Null, lastSeen = Null,
            currentlyConnected = Null, s3Paths = []\<rparr>"

definition active_snapshot :: snapshot where
  "active_snapshot = [''1'' \<mapsto> \<lparr>totalBytes = Finite 2048, latest = 20000 * 86400000\<rparr>]"

definition stale_snapshot :: snapshot where
  "stale_snapshot = [''1'' \<mapsto> \<lparr>totalBytes = Finite 2048, latest = 19000 * 86400000\<rparr>]"

definition no_activity :: snapshot where
  "no_activity = Map.empty"

definition connected :: keydata where
  "connected = \<lparr>creationTime = Val 0, deletionTime = Null, lastSeen = Val (20000 * 86400000),
                currentlyConnected = Val True, s3Paths = []\<rparr>"

definition connected_world :: world where
  "connected_world = \<lparr>access_keys = [''A-key-1'' \<mapsto> Record connected],
     state_kv = Map.empty, requests = []\<rparr>"

definition after_first_pass :: world where
  "after_first_pass =
     fst (snd (processKey example_env ''A-key-1'' active_snapshot False example_world emptyResults))"

definition legacy_tombstone :: keydata where
  "legacy_tombstone = \<lparr>creationTime = Val 0, deletionTime = Val (19000 * 86400000),
     lastSeen = Absent, currentlyConnected = Absent, s3Paths = []\<rparr>"

definition legacy_world :: world where
  "legacy_world = \<lparr>access_keys = [''A-key-1'' \<mapsto> Record legacy_tombstone],
     state_kv = Map.empty, requests = []\<rparr>"

definition tombstone :: keydata where
  "tombstone = \<lparr>creationTime = Val 0, deletionTime = Val (19000 * 86400000),
     lastSeen = Val (18000 * 86400000), currentlyConnected = Null, s3Paths = []\<rparr>"

definition tombstone_world :: world where
  "tombstone_world = \<lparr>access_keys = [''A-key-1'' \<mapsto> Record tombstone],
     state_kv = Map.empty, requests = []\<rparr>"

definition first_report :: updateResults where
  "first_report =
     snd (snd (processKey example_env ''A-key-1'' active_snapshot False example_world emptyResults))"

definition scenario_probes :: "(string \<times> probe) list" where
  "scenario_probes =
     [(''A'', Measured 50 (Finite 10)), (''B'', Measured 20 (Finite 100)), (''C'', TimedOut)]"

definition down_probes :: "(string \<times> probe) list" where
  "down_probes = [(''A'', TimedOut), (''B'', BadStatus), (''C'', FetchFailed)]"

definition read_fails_first :: "(string \<times> probe) list" where
  "read_fails_first = [(''B'', ReadRejected), (''A'', Measured 50 (Finite 10))]"

definition fetch_fails_first :: "(string \<times> probe) list" where
  "fetch_fails_first = [(''B'', FetchFailed), (''A'', Measured 50 (Finite 10))]"

definition read_fails_between :: "(string \<times> probe) list" where
  "read_fails_between =
     [(''A'', Measured 50 (Finite 10)), (''C'', ReadRejected), (''B'', Measured 20 (Finite 100))]"

definition near_tie_probes :: "(string \<times> probe) list" where
  "near_tie_probes =
     [(''A'', Measured (13125 / 1000) (Finite 18)),
      (''B'', Measured (4374999999999999 / 1000000000000000) (Finite 53))]"





definition budget_env :: env where
  "budget_env = example_env\<lparr>ak_names := [''A-key-1'', ''A-key-2'', ''B-key-1'']\<rparr>"

definition budget_world :: world where
  "budget_world = \<lparr>access_keys = [''A-key-1'' \<mapsto> Record idle91, ''A-key-2'' \<mapsto> Record idle91,
                                   ''B-key-1'' \<mapsto> Record idle91],
     state_kv = Map.empty, requests = []\<rparr>"

definition single_env :: env where
  "single_env = example_env\<lparr>ak_names := [''A-key-1''],
     endpoints := [(''A'', EpJson (Some ''https://a'') (Some ''https://pa''))]\<rparr>"

definition legacy_record :: keydata where
  "legacy_record = \<lparr>creationTime = Val 0, deletionTime = Absent, lastSeen = Absent,
     currentlyConnected = Absent, s3Paths = []\<rparr>"

definition legacy_record_world :: world where
  "legacy_record_world = \<lparr>access_keys = [''A-key-1'' \<mapsto> Record legacy_record],
     state_kv = Map.empty, requests = []\<rparr>"

definition after_backfill :: world where
  "after_backfill =
     fst (snd (processKey example_env ''A-key-1'' no_activity False legacy_record_world
                 emptyResults))"

section \<open>Helper facts\<close>

lemmas example_defs = example_cfg_def example_env_def idle91_def example_world_def

lemma shouldDelete_Val:
  "lastSeen d = Val t \<Longrightarrow>
   shouldDelete C now d =
     (EXPIRATION_DAYS C < of_int (now - t) / 86400000 \<and> currentlyConnected d \<noteq> Val True)"
  by (cases "currentlyConnected d") (auto simp: shouldDelete_def daysSinceLastSeen_def)

lemma shouldDelete_later:
  assumes "shouldDelete C now d" and "now \<le> now'"
  shows "shouldDelete C now' d"
proof -
  from assms(1) obtain t where t: "new_Date (lastSeen d) = Some t"
      and lt: "EXPIRATION_DAYS C < of_int (now - t) / (1000 * 60 * 60 * 24)"
      and cc: "\<not> truthy (currentlyConnected d)"
    by (auto simp: shouldDelete_def daysSinceLastSeen_def split: option.splits)
  have "(of_int (now - t) :: rat) / (1000 * 60 * 60 * 24) \<le> of_int (now' - t) / (1000 * 60 * 60 * 24)"
    using assms(2) by (simp add: divide_right_mono)
  with lt have "EXPIRATION_DAYS C < of_int (now' - t) / (1000 * 60 * 60 * 24)" by simp
  with t cc show ?thesis by (simp add: shouldDelete_def daysSinceLastSeen_def)
qed

section \<open>Revocation of a single credential\<close>

text \<open>
  C3. For a credential with a stored \<open>lastSeen\<close> time stamp, the decision taken by
  \<open>processKeyForDeletion\<close> is exactly: the days since \<open>lastSeen\<close>, that is
  \<open>(now - lastSeen) / 86400000 ms\<close>, exceed \<open>EXPIRATION_DAYS\<close>, and \<open>currentlyConnected\<close> is
  not \<open>true\<close>. When the decision is negative the key is reported as not deleted and
  nothing is touched; when it is positive the key is reported as deleted (or, in a dry
  run, as to be deleted, or as failed), and a key reported as deleted carries the
  tombstone. A credential idle for 91 days with 90 expiration days that is not connected
  is deleted; a connected one never is.
\<close>

theorem revocation_decision:
  assumes run: "processKeyForDeletion E k (Some d) isDryRun providers w res = (x, w', res')"
  shows "(\<forall>t. lastSeen d = Val t \<longrightarrow>
            (shouldDelete (cfg E) (clock E) d \<longleftrightarrow>
               EXPIRATION_DAYS (cfg E) < of_int (clock E - t) / 86400000
               \<and> currentlyConnected d \<noteq> Val True))
       \<and> (currentlyConnected d = Val True \<longrightarrow> \<not> shouldDelete (cfg E) (clock E) d)
       \<and> (\<not> shouldDelete (cfg E) (clock E) d \<longrightarrow>
            x = None \<and> w' = w
            \<and> (\<exists>i. processedKeys res' = processedKeys res @ [i] \<and> ki_status i = NotDeleted))
       \<and> (shouldDelete (cfg E) (clock E) d \<longrightarrow> x = None \<longrightarrow>
            (\<exists>i. processedKeys res' = processedKeys res @ [i]
                 \<and> ki_status i = (if isDryRun then WouldDelete
                                  else if ki_error i = None then Deleted else ErrorStatus)
                 \<and> (ki_status i = Deleted \<longrightarrow>
                      access_keys w' k = Some (Record (d\<lparr>deletionTime := Val (clock E),
                                                        currentlyConnected := Null\<rparr>)))))"
proof -
  have a: "\<forall>t. lastSeen d = Val t \<longrightarrow>
            (shouldDelete (cfg E) (clock E) d \<longleftrightarrow>
               EXPIRATION_DAYS (cfg E) < of_int (clock E - t) / 86400000
               \<and> currentlyConnected d \<noteq> Val True)"
    using shouldDelete_Val by blast
  have a': "currentlyConnected d = Val True \<longrightarrow> \<not> shouldDelete (cfg E) (clock E) d"
    by (simp add: shouldDelete_def)
  have b: "x = None \<and> w' = w
            \<and> (\<exists>i. processedKeys res' = processedKeys res @ [i] \<and> ki_status i = NotDeleted)"
    if "\<not> shouldDelete (cfg E) (clock E) d"
    using run that by (auto simp: processKeyForDeletion_def Let_def)
  have c: "\<exists>i. processedKeys res' = processedKeys res @ [i]
                 \<and> ki_status i = (if isDryRun then WouldDelete
                                  else if ki_error i = None then Deleted else ErrorStatus)
                 \<and> (ki_status i = Deleted \<longrightarrow>
                      access_keys w' k = Some (Record (d\<lparr>deletionTime := Val (clock E),
                                                        currentlyConnected := Null\<rparr>)))"
    if "shouldDelete (cfg E) (clock E) d" "x = None"
    using run that
    by (auto simp: processKeyForDeletion_def delete_try_def ak_put_def Let_def
             split: if_splits sum.splits prod.splits option.splits)
  from a a' b c show ?thesis by blast
qed

theorem revocation_decision_witness:
  "shouldDelete (cfg example_env) (clock example_env) idle91
   \<and> \<not> shouldDelete (cfg example_env) (clock example_env) (idle91\<lparr>currentlyConnected := Val True\<rparr>)
   \<and> (case processKeyForDeletion example_env ''A-key-1'' (Some idle91) False [] example_world
             emptyDeleteResults of
        (x, w', res') \<Rightarrow>
          map ki_status (processedKeys res') = [Deleted]
          \<and> access_keys w' ''A-key-1'' =
              Some (Record (idle91\<lparr>deletionTime := Val (clock example_env),
                                   currentlyConnected := Null\<rparr>)))"
proof -
  let ?R = "processKeyForDeletion example_env ''A-key-1'' (Some idle91) False [] example_world
              emptyDeleteResults"
  let ?R2 = "processKeyForDeletion example_env ''A-key-1''
              (Some (idle91\<lparr>currentlyConnected := Val True\<rparr>)) False [] example_world
              emptyDeleteResults"
  have run: "?R = (fst ?R, fst (snd ?R), snd (snd ?R))" by simp
  have run2: "?R2 = (fst ?R2, fst (snd ?R2), snd (snd ?R2))" by simp
  have seen: "lastSeen idle91 = Val (19909 * 86400000)" by (simp add: idle91_def)
  have conn: "currentlyConnected (idle91\<lparr>currentlyConnected := Val True\<rparr>) = Val True"
    by simp
  note th = revocation_decision [OF run]
  note th2 = revocation_decision [OF run2]
  from th seen
  have "shouldDelete (cfg example_env) (clock example_env) idle91 \<longleftrightarrow>
          EXPIRATION_DAYS (cfg example_env)
            < of_int (clock example_env - 19909 * 86400000) / 86400000
          \<and> currentlyConnected idle91 \<noteq> Val True"
    by blast
  then have sd: "shouldDelete (cfg example_env) (clock example_env) idle91"
    by (simp add: example_defs)
  have nsd: "\<not> shouldDelete (cfg example_env) (clock example_env)
                 (idle91\<lparr>currentlyConnected := Val True\<rparr>)"
    using th2 conn by blast
  have x: "fst ?R = None" by code_simp
  have err: "map ki_error (processedKeys (snd (snd ?R))) = [None]" by code_simp
  from th sd x obtain i where i: "processedKeys (snd (snd ?R)) = processedKeys emptyDeleteResults @ [i]"
      "ki_status i = (if False then WouldDelete else if ki_error i = None then Deleted else ErrorStatus)"
      "ki_status i = Deleted \<longrightarrow> access_keys (fst (snd ?R)) ''A-key-1'' =
          Some (Record (idle91\<lparr>deletionTime := Val (clock example_env), currentlyConnected := Null\<rparr>))"
    by blast
  from i(1) err have "ki_error i = None" by (simp add: emptyDeleteResults_def)
  with i have "ki_status i = Deleted" by simp
  with i sd nsd show ?thesis
    by (simp add: emptyDeleteResults_def case_prod_beta)
qed

text \<open>
  C4. When the backend answers the delete request with a failure (a transport error or a
  non-success status), \<open>processKeyForDeletion\<close> leaves the store as it is: the request
  to the backend is the only request made, no record is written, the report entry of the
  key has status \<open>Error\<close> with the failure text and the old \<open>deletionTime\<close>, and the
  credential still satisfies the deletion test at any later time.
\<close>

theorem backend_delete_failure_keeps_record:
  assumes sel: "shouldDelete (cfg E) (clock E) d"
      and ep: "retry (ep_get E (hd (js_split ''-key-'' k))) (MAX_RETRIES (cfg E)) = Inr entry"
      and found: "\<not> falsy_entry entry"
      and fail: "sendDeleteRequest (backend_delete E (delete_url entry k)) = Inl err"
  shows "(case processKeyForDeletion E k (Some d) False providers w res of
            (x, w', res') \<Rightarrow>
              x = None
              \<and> access_keys w' = access_keys w
              \<and> requests w' = requests w @ [BackendDelete (delete_url entry k)]
              \<and> (\<exists>i. processedKeys res' = processedKeys res @ [i]
                      \<and> ki_status i = ErrorStatus
                      \<and> ki_error i = Some (''Failed to delete key: '' @ err)
                      \<and> ki_deletionTime i = deletionTime d))
         \<and> (\<forall>now'. clock E \<le> now' \<longrightarrow> shouldDelete (cfg E) now' d)"
proof -
  have "\<forall>now'. clock E \<le> now' \<longrightarrow> shouldDelete (cfg E) now' d"
    using sel shouldDelete_later by blast
  moreover have "(case processKeyForDeletion E k (Some d) False providers w res of
            (x, w', res') \<Rightarrow>
              x = None
              \<and> access_keys w' = access_keys w
              \<and> requests w' = requests w @ [BackendDelete (delete_url entry k)]
              \<and> (\<exists>i. processedKeys res' = processedKeys res @ [i]
                      \<and> ki_status i = ErrorStatus
                      \<and> ki_error i = Some (''Failed to delete key: '' @ err)
                      \<and> ki_deletionTime i = deletionTime d))"
    using sel ep found fail
    by (simp add: processKeyForDeletion_def delete_try_def Let_def)
  ultimately show ?thesis by blast
qed

theorem backend_delete_failure_keeps_record_witness:
  "shouldDelete (cfg failing_env) (clock failing_env) idle91
   \<and> (case processKeyForDeletion failing_env ''A-key-1'' (Some idle91) False [] example_world
             emptyDeleteResults of
        (x, w', res') \<Rightarrow>
          x = None
          \<and> access_keys w' ''A-key-1'' = Some (Record idle91)
          \<and> requests w' = [BackendDelete ''https://a/access-keys/1'']
          \<and> map ki_status (processedKeys res') = [ErrorStatus])
   \<and> shouldDelete (cfg failing_env) (clock failing_env + 86400000) idle91"
proof -
  let ?entry = "Some (EpJson (Some ''https://a'') (Some ''https://pa''))"
  have sel: "shouldDelete (cfg failing_env) (clock failing_env) idle91" by code_simp
  have ep: "retry (ep_get failing_env (hd (js_split ''-key-'' ''A-key-1'')))
              (MAX_RETRIES (cfg failing_env)) = Inr ?entry" by code_simp
  have found: "\<not> falsy_entry ?entry" by simp
  have fail: "sendDeleteRequest (backend_delete failing_env (delete_url ?entry ''A-key-1''))
                = Inl ''connection refused''" by code_simp
  have url: "delete_url ?entry ''A-key-1'' = ''https://a/access-keys/1''" by code_simp
  have stored: "access_keys example_world ''A-key-1'' = Some (Record idle91)"
    by (simp add: example_world_def)
  have later: "clock failing_env \<le> clock failing_env + 86400000" by simp
  from backend_delete_failure_keeps_record [OF sel ep found fail, where providers = "[]" and w = example_world and res = emptyDeleteResults]
    url stored later
  show ?thesis
    by (auto simp: emptyDeleteResults_def example_world_def split: prod.splits)
qed

text \<open>
  C10. A record whose \<open>lastSeen\<close> is JSON \<open>null\<close> is aged from the Unix epoch: its days
  since \<open>lastSeen\<close> are the days since 1970, whatever its \<open>creationTime\<close>. As soon as the
  current time lies more than \<open>EXPIRATION_DAYS\<close> after the epoch, such a record is to be
  deleted exactly when \<open>currentlyConnected\<close> is falsy. A record without any \<open>lastSeen\<close>
  property has the age \<open>NaN\<close> and is never deleted.
\<close>

theorem null_lastSeen_ages_from_epoch:
  assumes null: "lastSeen d = Null"
      and old: "EXPIRATION_DAYS (cfg E) * 86400000 < of_int (clock E)"
  shows "daysSinceLastSeen (clock E) d = Some (of_int (clock E) / 86400000)
       \<and> (shouldDelete (cfg E) (clock E) d \<longleftrightarrow> \<not> truthy (currentlyConnected d))
       \<and> (\<forall>c. shouldDelete (cfg E) (clock E) (d\<lparr>creationTime := c\<rparr>)
                = shouldDelete (cfg E) (clock E) d)
       \<and> (\<not> truthy (currentlyConnected d) \<longrightarrow>
            (case processKeyForDeletion E k (Some d) True providers w res of
               (x, w', res') \<Rightarrow>
                 x = None \<and> w' = w
                 \<and> map ki_status (processedKeys res')
                     = map ki_status (processedKeys res) @ [WouldDelete]))
       \<and> (\<forall>d'. lastSeen d' = Absent \<longrightarrow>
             daysSinceLastSeen (clock E) d' = None
             \<and> \<not> shouldDelete (cfg E) (clock E) d'
             \<and> (case processKeyForDeletion E k (Some d') isDryRun providers w res of
                 (x, w', res') \<Rightarrow>
                   x = None \<and> w' = w
                   \<and> map ki_status (processedKeys res')
                       = map ki_status (processedKeys res) @ [NotDeleted]))"
proof -
  have days: "daysSinceLastSeen (clock E) d = Some (of_int (clock E) / 86400000)"
    using null by (simp add: daysSinceLastSeen_def)
  have "EXPIRATION_DAYS (cfg E) < of_int (clock E) / 86400000"
    using old by (simp add: pos_less_divide_eq)
  with days have sd: "shouldDelete (cfg E) (clock E) d \<longleftrightarrow> \<not> truthy (currentlyConnected d)"
    by (simp add: shouldDelete_def)
  have cr: "\<forall>c. shouldDelete (cfg E) (clock E) (d\<lparr>creationTime := c\<rparr>)
                = shouldDelete (cfg E) (clock E) d"
    by (simp add: shouldDelete_def daysSinceLastSeen_def)
  have dry: "\<not> truthy (currentlyConnected d) \<longrightarrow>
            (case processKeyForDeletion E k (Some d) True providers w res of
               (x, w', res') \<Rightarrow>
                 x = None \<and> w' = w
                 \<and> map ki_status (processedKeys res')
                     = map ki_status (processedKeys res) @ [WouldDelete])"
    using sd by (simp add: processKeyForDeletion_def Let_def)
  have absent: "\<forall>d'. lastSeen d' = Absent \<longrightarrow>
             daysSinceLastSeen (clock E) d' = None
             \<and> \<not> shouldDelete (cfg E) (clock E) d'
             \<and> (case processKeyForDeletion E k (Some d') isDryRun providers w res of
                 (x, w', res') \<Rightarrow>
                   x = None \<and> w' = w
                   \<and> map ki_status (processedKeys res')
                       = map ki_status (processedKeys res) @ [NotDeleted])"
    by (simp add: processKeyForDeletion_def shouldDelete_def daysSinceLastSeen_def Let_def)
  from days sd cr dry absent show ?thesis by blast
qed


theorem null_lastSeen_ages_from_epoch_witness:
  "lastSeen fresh = Null
   \<and> EXPIRATION_DAYS (cfg example_env) * 86400000 < of_int (clock example_env)
   \<and> daysSinceLastSeen (clock example_env) fresh = Some 20000
   \<and> shouldDelete (cfg example_env) (clock example_env) fresh
   \<and> \<not> shouldDelete (cfg example_env) (clock example_env) (fresh\<lparr>lastSeen := Absent\<rparr>)"
proof -
  have null: "lastSeen fresh = Null" by (simp add: fresh_def)
  have old: "EXPIRATION_DAYS (cfg example_env) * 86400000 < of_int (clock example_env)"
    by (simp add: example_defs)
  have ab: "lastSeen (fresh\<lparr>lastSeen := Absent\<rparr>) = Absent" by simp
  have cc: "\<not> truthy (currentlyConnected fresh)" by (simp add: fresh_def)
  have c: "rat_of_int (clock example_env) / 86400000 = 20000" by (simp add: example_defs)
  from null_lastSeen_ages_from_epoch [OF null old, where k = "''A-key-1''" and providers = "[]" and w = example_world
      and res = emptyDeleteResults and isDryRun = False]
    null old ab cc c
  show ?thesis by auto
qed

section \<open>Reconciliation of a single credential\<close>

lemma retry_get_parse:
  assumes "access_keys w k = Some (Record d)"
  shows "retry (ak_get_parse E w k) n = Inr (Some d) \<or> (\<exists>e. retry (ak_get_parse E w k) n = Inl e)"
proof (cases "retry (ak_get_parse E w k) n")
  case (Inl e)
  then show ?thesis by simp
next
  case (Inr v)
  from retry_Inr [OF this] obtain j where "ak_get_parse E w k j = Inr v" by blast
  with assms have "v = Some d"
    by (auto simp: ak_get_parse_def ak_get_def split: option.splits)
  with Inr show ?thesis by simp
qed

lemma ak_put_store:
  assumes "ak_put E k d w = (r, w1)"
  shows "(r = Inr () \<and> access_keys w1 = (access_keys w)(k \<mapsto> Record d))
         \<or> ((\<exists>e. r = Inl e) \<and> access_keys w1 = access_keys w)"
proof (cases "retry (put_attempt E k) (MAX_RETRIES (cfg E))")
  case (Inl e)
  with assms have "r = Inl e" "access_keys w1 = access_keys w"
    by (auto simp: ak_put_def Let_def)
  then show ?thesis by blast
next
  case (Inr u)
  with assms have "r = Inr ()" "access_keys w1 = (access_keys w)(k \<mapsto> Record d)"
    by (auto simp: ak_put_def Let_def)
  then show ?thesis by blast
qed

lemma or_null_id: "x \<noteq> Absent \<Longrightarrow> or_null x = x"
  by (cases x) auto

lemma complete_backfill:
  "all_present d \<Longrightarrow>
   d\<lparr>deletionTime := or_null (deletionTime d), lastSeen := or_null (lastSeen d),
     currentlyConnected := or_null (currentlyConnected d)\<rparr> = d"
  by (simp add: all_present_def or_null_id)

lemma incomplete_backfill:
  "\<not> all_present d \<Longrightarrow>
   d\<lparr>deletionTime := or_null (deletionTime d), lastSeen := or_null (lastSeen d),
     currentlyConnected := or_null (currentlyConnected d)\<rparr> \<noteq> d"
proof
  assume n: "\<not> all_present d"
  assume e: "d\<lparr>deletionTime := or_null (deletionTime d), lastSeen := or_null (lastSeen d),
     currentlyConnected := or_null (currentlyConnected d)\<rparr> = d"
  have "deletionTime (d\<lparr>deletionTime := or_null (deletionTime d), lastSeen := or_null (lastSeen d),
     currentlyConnected := or_null (currentlyConnected d)\<rparr>) = or_null (deletionTime d)" by simp
  with e have 1: "or_null (deletionTime d) = deletionTime d" by simp
  have "lastSeen (d\<lparr>deletionTime := or_null (deletionTime d), lastSeen := or_null (lastSeen d),
     currentlyConnected := or_null (currentlyConnected d)\<rparr>) = or_null (lastSeen d)" by simp
  with e have 2: "or_null (lastSeen d) = lastSeen d" by simp
  have "currentlyConnected (d\<lparr>deletionTime := or_null (deletionTime d), lastSeen := or_null (lastSeen d),
     currentlyConnected := or_null (currentlyConnected d)\<rparr>) = or_null (currentlyConnected d)" by simp
  with e have 3: "or_null (currentlyConnected d) = currentlyConnected d" by simp
  from 1 2 3 n show False
    by (cases "deletionTime d"; cases "lastSeen d"; cases "currentlyConnected d")
       (auto simp: all_present_def)
qed

text \<open>What \<open>processKey\<close> does once the record has been read.\<close>

lemma processKey_complete:
  assumes rd: "retry (ak_get_parse E w k) (MAX_RETRIES (cfg E)) = Inr (Some d)"
      and c: "all_present d"
  shows "processKey E k activeKeys isDryRun w res =
     (if (\<exists>t. deletionTime d = Val t) then (None, w, res)
      else if isActive activeKeys k \<or> currentlyConnected d \<noteq> Val (isActive activeKeys k) then
        (if isDryRun then
           (None, w, res\<lparr>updatedKeys := updatedKeys res @
              [\<lparr>ku_key = k, ku_before = Some d, ku_after = Some (finalKeyData activeKeys k d)\<rparr>]\<rparr>)
         else
           (case ak_put E k (finalKeyData activeKeys k d) w of
              (Inr u, w1) \<Rightarrow>
                (None, w1, res\<lparr>updatedKeys := updatedKeys res @
                   [\<lparr>ku_key = k, ku_before = Some d,
                     ku_after = Some (finalKeyData activeKeys k d)\<rparr>]\<rparr>)
            | (Inl error, w1) \<Rightarrow>
                (case message error of
                   Inl e \<Rightarrow> (Some e, w1, res)
                 | Inr m \<Rightarrow>
                     (None, w1, res\<lparr>errors := errors res @
                        [''Error processing key '' @ k @ '': '' @ m]\<rparr>))))
      else (None, w, res))"
proof -
  note bf = complete_backfill [OF c]
  show ?thesis
  proof (cases "deletionTime d")
    case (Val t)
    then show ?thesis
      using rd bf by (simp add: processKey_def processKey_try_def Let_def)
  next
    case Null
    then show ?thesis
      using rd bf
      by (auto simp: processKey_def processKey_try_def Let_def isActive_def finalKeyData_def
               split: option.splits sum.splits prod.splits)
  next
    case Absent
    with c show ?thesis by (simp add: all_present_def)
  qed
qed

lemma processKey_incomplete:
  assumes rd: "retry (ak_get_parse E w k) (MAX_RETRIES (cfg E)) = Inr (Some d)"
      and c: "\<not> all_present d"
  shows "processKey E k activeKeys isDryRun w res =
     (let updatedKeyData = d\<lparr>deletionTime := or_null (deletionTime d),
                             lastSeen := or_null (lastSeen d),
                             currentlyConnected := or_null (currentlyConnected d)\<rparr> in
      if isDryRun then
        (None, w, res\<lparr>updatedKeys := updatedKeys res @
           [\<lparr>ku_key = k, ku_before = Some d, ku_after = Some updatedKeyData\<rparr>]\<rparr>)
      else
        (case ak_put E k updatedKeyData w of
           (Inr u, w1) \<Rightarrow>
             (None, w1, res\<lparr>updatedKeys := updatedKeys res @
                [\<lparr>ku_key = k, ku_before = None, ku_after = None\<rparr>]\<rparr>)
         | (Inl error, w1) \<Rightarrow>
             (case message error of
                Inl e \<Rightarrow> (Some e, w1, res)
              | Inr m \<Rightarrow>
                  (None, w1, res\<lparr>errors := errors res @
                     [''Error processing key '' @ k @ '': '' @ m]\<rparr>))))"
  using rd incomplete_backfill [OF c]
  by (auto simp: processKey_def processKey_try_def Let_def
           split: option.splits sum.splits prod.splits)

lemma processKey_unread:
  assumes rd: "retry (ak_get_parse E w k) (MAX_RETRIES (cfg E)) = Inl error"
  shows "processKey E k activeKeys isDryRun w res =
     (case message error of
        Inl e \<Rightarrow> (Some e, w, res)
      | Inr m \<Rightarrow> (None, w, res\<lparr>errors := errors res @
                      [''Error processing key '' @ k @ '': '' @ m]\<rparr>))"
  using rd by (simp add: processKey_def processKey_try_def)

lemma finalKeyData_lastSeen:
  "lastSeen (finalKeyData activeKeys k d) = lastSeen d
   \<or> (\<exists>a. activeKeys (last (js_split ''-'' k)) = Some a \<and> isActive activeKeys k
           \<and> lastSeen (finalKeyData activeKeys k d) = Val (latest a))"
  by (auto simp: finalKeyData_def split: option.splits)

lemma finalKeyData_idem:
  "finalKeyData activeKeys k (finalKeyData activeKeys k d) = finalKeyData activeKeys k d"
  by (auto simp: finalKeyData_def split: option.splits)

lemma finalKeyData_complete: "all_present d \<Longrightarrow> all_present (finalKeyData activeKeys k d)"
  by (auto simp: finalKeyData_def all_present_def split: option.splits)

lemma ak_put_requests:
  "requests (snd (ak_put E k d w)) =
     requests w @ replicate (attempts (put_attempt E k) (MAX_RETRIES (cfg E))) (KvPut k d)"
  by (simp add: ak_put_def Let_def split: sum.splits)

text \<open>
  C2, as the code has it. \<open>processKey\<close> persists a record whenever the credential is
  active in the snapshot, or its \<open>currentlyConnected\<close> differs from the activity flag; it
  does not compare the record it writes with the one it read. So a second pass with the
  same snapshot writes an active credential again, with the content already stored, and
  a record that was only backfilled by the first pass is compared and written by the
  second.
\<close>

theorem rewrite_without_change_counterexample:
  "access_keys after_first_pass ''A-key-1'' = Some (Record connected)
   \<and> requests after_first_pass = [KvPut ''A-key-1'' connected]
   \<and> requests (fst (snd (processKey example_env ''A-key-1'' active_snapshot False
                           after_first_pass emptyResults)))
      = [KvPut ''A-key-1'' connected, KvPut ''A-key-1'' connected]
   \<and> requests after_backfill
      = [KvPut ''A-key-1'' (legacy_record\<lparr>deletionTime := Null, lastSeen := Null,
                                           currentlyConnected := Null\<rparr>)]
   \<and> requests (fst (snd (processKey example_env ''A-key-1'' no_activity False
                           after_backfill emptyResults)))
      = [KvPut ''A-key-1'' (legacy_record\<lparr>deletionTime := Null, lastSeen := Null,
                                           currentlyConnected := Null\<rparr>),
         KvPut ''A-key-1'' (legacy_record\<lparr>deletionTime := Null, lastSeen := Null,
                                           currentlyConnected := Val False\<rparr>)]"
  by code_simp

text \<open>
  C2, amended. For a record that needs no backfill, after a first pass that reported no
  error for the key, a second pass with the same snapshot leaves the store as it is:
  whatever it writes is the record already stored, and it writes nothing at all (the
  world and the report are unchanged) when the credential is not active in the snapshot.
\<close>

theorem second_pass_keeps_record:
  assumes pass1: "processKey E k activeKeys False w res = (None, w1, res1)"
      and ok1: "errors res1 = errors res"
      and stored: "access_keys w k = Some (Record d)"
      and c: "all_present d"
      and pass2: "processKey E' k activeKeys False w1 res1 = (x, w2, res2)"
  shows "access_keys w2 = access_keys w1
       \<and> (\<exists>d1 n. access_keys w1 k = Some (Record d1)
                 \<and> requests w2 = requests w1 @ replicate n (KvPut k d1))
       \<and> (\<not> isActive activeKeys k \<longrightarrow> w2 = w1 \<and> updatedKeys res2 = updatedKeys res1)"
proof -
  text \<open>The first pass read the record, since it reported no error.\<close>
  from retry_get_parse [OF stored, of E "MAX_RETRIES (cfg E)"]
  have rd1: "retry (ak_get_parse E w k) (MAX_RETRIES (cfg E)) = Inr (Some d)"
  proof
    assume "\<exists>e. retry (ak_get_parse E w k) (MAX_RETRIES (cfg E)) = Inl e"
    then obtain e where e: "retry (ak_get_parse E w k) (MAX_RETRIES (cfg E)) = Inl e" by blast
    from pass1 ok1 show ?thesis
      unfolding processKey_unread [OF e] by (auto split: sum.splits)
  qed
  text \<open>The record left by the first pass.\<close>
  define d1 where "d1 = (if (\<exists>t. deletionTime d = Val t) then d
     else if isActive activeKeys k \<or> currentlyConnected d \<noteq> Val (isActive activeKeys k)
     then finalKeyData activeKeys k d else d)"
  have st1: "access_keys w1 k = Some (Record d1)"
    using pass1 ok1 stored unfolding processKey_complete [OF rd1 c] d1_def
    by (auto split: if_splits prod.splits sum.splits dest!: ak_put_store)
  have c1: "all_present d1" using c by (simp add: d1_def finalKeyData_complete)
  have tomb1: "(\<exists>t. deletionTime d1 = Val t) = (\<exists>t. deletionTime d = Val t)"
    by (simp add: d1_def finalKeyData_def)
  have cc1: "\<not> (\<exists>t. deletionTime d = Val t) \<Longrightarrow>
             currentlyConnected d1 = Val (isActive activeKeys k)"
    by (auto simp: d1_def finalKeyData_def)
  have fin1: "\<not> (\<exists>t. deletionTime d = Val t) \<Longrightarrow> finalKeyData activeKeys k d1 = d1"
  proof -
    assume nt: "\<not> (\<exists>t. deletionTime d = Val t)"
    show ?thesis
    proof (cases "isActive activeKeys k \<or> currentlyConnected d \<noteq> Val (isActive activeKeys k)")
      case True
      with nt show ?thesis by (simp add: d1_def finalKeyData_idem)
    next
      case False
      then have "\<not> isActive activeKeys k" "currentlyConnected d = Val False" by auto
      then have "finalKeyData activeKeys k d = d"
        by (cases d) (auto simp: finalKeyData_def split: option.splits)
      with nt False show ?thesis by (simp add: d1_def)
    qed
  qed
  from retry_get_parse [OF st1, of E' "MAX_RETRIES (cfg E')"]
  consider "retry (ak_get_parse E' w1 k) (MAX_RETRIES (cfg E')) = Inr (Some d1)"
    | e where "retry (ak_get_parse E' w1 k) (MAX_RETRIES (cfg E')) = Inl e" by blast
  then show ?thesis
  proof cases
    case 1
    show ?thesis
    proof (cases "\<exists>t. deletionTime d = Val t")
      case True
      with pass2 tomb1 st1 show ?thesis
        unfolding processKey_complete [OF 1 c1]
        by (auto intro: exI [of _ 0])
    next
      case False
      note cc = cc1 [OF False] and fin = fin1 [OF False]
      show ?thesis
      proof (cases "isActive activeKeys k")
        case True
        obtain r w3 where put: "ak_put E' k d1 w1 = (r, w3)" by (cases "ak_put E' k d1 w1")
        from ak_put_store [OF put] st1 have same: "access_keys w3 = access_keys w1"
          by (auto simp: fun_upd_idem)
        from ak_put_requests [of E' k d1 w1] put
        have rq: "requests w3 = requests w1 @
                    replicate (attempts (put_attempt E' k) (MAX_RETRIES (cfg E'))) (KvPut k d1)"
          by simp
        from pass2 True False tomb1 cc fin put have "w2 = w3"
          unfolding processKey_complete [OF 1 c1]
          by (auto split: sum.splits)
        with same rq st1 True show ?thesis by blast
      next
        case False
        with pass2 \<open>\<not> (\<exists>t. deletionTime d = Val t)\<close> tomb1 cc st1 show ?thesis
          unfolding processKey_complete [OF 1 c1]
          by (auto intro: exI [of _ 0])
      qed
    qed
  next
    case 2
    with pass2 st1 show ?thesis
      unfolding processKey_unread [OF 2]
      by (auto split: sum.splits intro: exI [of _ 0])
  qed
qed

theorem second_pass_keeps_record_witness:
  "all_present idle91
   \<and> errors first_report = []
   \<and> access_keys (fst (snd (processKey example_env ''A-key-1'' active_snapshot False
                               after_first_pass first_report)))
      = access_keys after_first_pass"
proof -
  let ?R1 = "processKey example_env ''A-key-1'' active_snapshot False example_world emptyResults"
  let ?R2 = "processKey example_env ''A-key-1'' active_snapshot False after_first_pass first_report"
  have x1: "fst ?R1 = None" by code_simp
  have pass1: "?R1 = (None, after_first_pass, first_report)"
    using x1 by (simp add: after_first_pass_def first_report_def prod_eq_iff)
  have e1: "errors first_report = []" by code_simp
  have ok1: "errors first_report = errors emptyResults"
    by (simp add: e1 emptyResults_def)
  have stored: "access_keys example_world ''A-key-1'' = Some (Record idle91)"
    by (simp add: example_world_def)
  have c: "all_present idle91" by (simp add: all_present_def idle91_def)
  have pass2: "?R2 = (fst ?R2, fst (snd ?R2), snd (snd ?R2))" by simp
  from second_pass_keeps_record [OF pass1 ok1 stored c pass2] c e1 show ?thesis by simp
qed

text \<open>
  C5, as the code has it. The backfill of missing properties comes before the test for a
  tombstone, so a record with \<open>deletionTime\<close> set that lacks \<open>lastSeen\<close> or
  \<open>currentlyConnected\<close> is not skipped: it is written back with the missing properties
  set to \<open>null\<close>.
\<close>

theorem tombstone_backfill_counterexample:
  "deletionTime legacy_tombstone = Val (19000 * 86400000)
   \<and> lastSeen legacy_tombstone = Absent
   \<and> access_keys (fst (snd (processKey example_env ''A-key-1'' no_activity False
                               legacy_world emptyResults))) ''A-key-1''
      = Some (Record (legacy_tombstone\<lparr>lastSeen := Null, currentlyConnected := Null\<rparr>))
   \<and> requests (fst (snd (processKey example_env ''A-key-1'' no_activity False
                           legacy_world emptyResults)))
      = [KvPut ''A-key-1'' (legacy_tombstone\<lparr>lastSeen := Null, currentlyConnected := Null\<rparr>)]"
  by code_simp

text \<open>
  C5, amended. For a record with \<open>deletionTime\<close> set, a reconciliation pass never changes
  a stored value of \<open>lastSeen\<close> or \<open>currentlyConnected\<close> and never changes
  \<open>deletionTime\<close>; the only change it can make is to turn a missing \<open>lastSeen\<close> or
  \<open>currentlyConnected\<close> into \<open>null\<close>. When both are present the record is skipped: no
  request is made and nothing is reported.
\<close>

theorem tombstone_only_backfilled:
  assumes run: "processKey E k activeKeys isDryRun w res = (x, w', res')"
      and stored: "access_keys w k = Some (Record d)"
      and tomb: "deletionTime d = Val t"
  shows "(\<exists>d'. access_keys w' k = Some (Record d')
            \<and> deletionTime d' = Val t
            \<and> (lastSeen d' = lastSeen d \<or> lastSeen d = Absent \<and> lastSeen d' = Null)
            \<and> (currentlyConnected d' = currentlyConnected d
                \<or> currentlyConnected d = Absent \<and> currentlyConnected d' = Null))
       \<and> (lastSeen d \<noteq> Absent \<and> currentlyConnected d \<noteq> Absent \<longrightarrow>
            w' = w \<and> updatedKeys res' = updatedKeys res)"
proof -
  from retry_get_parse [OF stored, of E "MAX_RETRIES (cfg E)"]
  consider "retry (ak_get_parse E w k) (MAX_RETRIES (cfg E)) = Inr (Some d)"
    | e where "retry (ak_get_parse E w k) (MAX_RETRIES (cfg E)) = Inl e" by blast
  then show ?thesis
  proof cases
    case 1
    show ?thesis
    proof (cases "lastSeen d = Absent \<or> currentlyConnected d = Absent")
      case True
      then have ne: "d \<noteq> d\<lparr>deletionTime := Val t, lastSeen := or_null (lastSeen d),
                   currentlyConnected := or_null (currentlyConnected d)\<rparr>"
        by (cases d) auto
      show ?thesis
        using run 1 stored tomb True ne
        by (cases "lastSeen d"; cases "currentlyConnected d")
           (auto simp: processKey_def processKey_try_def Let_def
                 split: if_splits sum.splits prod.splits dest!: ak_put_store)
    next
      case False
      then have eq: "d\<lparr>deletionTime := Val t, lastSeen := or_null (lastSeen d),
                   currentlyConnected := or_null (currentlyConnected d)\<rparr> = d"
        using tomb by (cases d; cases "lastSeen d"; cases "currentlyConnected d") auto
      show ?thesis
        using run 1 stored tomb False eq
        by (auto simp: processKey_def processKey_try_def Let_def)
    qed
  next
    case 2
    then show ?thesis
      using run stored tomb
      by (auto simp: processKey_def processKey_try_def split: sum.splits)
  qed
qed

theorem tombstone_only_backfilled_witness:
  "deletionTime tombstone = Val (19000 * 86400000)
   \<and> fst (snd (processKey example_env ''A-key-1'' active_snapshot False tombstone_world
                  emptyResults)) = tombstone_world"
proof -
  let ?R = "processKey example_env ''A-key-1'' active_snapshot False tombstone_world emptyResults"
  have run: "?R = (fst ?R, fst (snd ?R), snd (snd ?R))" by simp
  have stored: "access_keys tombstone_world ''A-key-1'' = Some (Record tombstone)"
    by (simp add: tombstone_world_def)
  have tomb: "deletionTime tombstone = Val (19000 * 86400000)" by (simp add: tombstone_def)
  have present: "lastSeen tombstone \<noteq> Absent \<and> currentlyConnected tombstone \<noteq> Absent"
    by (simp add: tombstone_def)
  from tombstone_only_backfilled [OF run stored tomb] present tomb show ?thesis by blast
qed

text \<open>
  C6, as the code has it. When the credential is active, \<open>lastSeen\<close> is overwritten with
  the time stamp of the snapshot, without a comparison with the stored value: a snapshot
  whose time stamp is earlier moves \<open>lastSeen\<close> back.
\<close>

theorem lastSeen_regress_counterexample:
  "lastSeen connected = Val (20000 * 86400000)
   \<and> access_keys (fst (snd (processKey example_env ''A-key-1'' stale_snapshot False
                               connected_world emptyResults))) ''A-key-1''
      = Some (Record (connected\<lparr>lastSeen := Val (19000 * 86400000)\<rparr>))"
  by code_simp

text \<open>
  C6, amended. After a reconciliation pass the stored \<open>lastSeen\<close> is the old one, or
  \<open>null\<close> in place of a missing one, or, only when the credential is active in the
  snapshot, the time stamp of the snapshot. So it is left unchanged when the credential
  is not active, and it does not decrease provided the time stamp of the snapshot is not
  earlier than the stored one.
\<close>

theorem lastSeen_follows_snapshot:
  assumes run: "processKey E k activeKeys isDryRun w res = (x, w', res')"
      and stored: "access_keys w k = Some (Record d)"
  shows "\<exists>d'. access_keys w' k = Some (Record d')
           \<and> (lastSeen d' = lastSeen d
               \<or> (lastSeen d = Absent \<and> lastSeen d' = Null)
               \<or> (\<exists>a. activeKeys (last (js_split ''-'' k)) = Some a \<and> isActive activeKeys k
                       \<and> lastSeen d' = Val (latest a)))
           \<and> (\<not> isActive activeKeys k \<longrightarrow>
                 lastSeen d' = lastSeen d \<or> (lastSeen d = Absent \<and> lastSeen d' = Null))
           \<and> (\<forall>t. lastSeen d = Val t \<longrightarrow>
                 (\<forall>a. activeKeys (last (js_split ''-'' k)) = Some a \<longrightarrow> t \<le> latest a) \<longrightarrow>
                 (\<exists>t'. lastSeen d' = Val t' \<and> t \<le> t'))"
proof -
  have main: "\<exists>d'. access_keys w' k = Some (Record d')
           \<and> (lastSeen d' = lastSeen d
               \<or> (lastSeen d = Absent \<and> lastSeen d' = Null)
               \<or> (\<exists>a. activeKeys (last (js_split ''-'' k)) = Some a \<and> isActive activeKeys k
                       \<and> lastSeen d' = Val (latest a)))"
  proof -
    from retry_get_parse [OF stored, of E "MAX_RETRIES (cfg E)"]
    consider "retry (ak_get_parse E w k) (MAX_RETRIES (cfg E)) = Inr (Some d)"
      | e where "retry (ak_get_parse E w k) (MAX_RETRIES (cfg E)) = Inl e" by blast
    then show ?thesis
    proof cases
      case 1
      show ?thesis
      proof (cases "all_present d")
        case True
        from run finalKeyData_lastSeen [of activeKeys k d] stored show ?thesis
          unfolding processKey_complete [OF 1 True]
          by (auto split: if_splits prod.splits sum.splits dest!: ak_put_store)
      next
        case False
        have "lastSeen d = Absent \<or> or_null (lastSeen d) = lastSeen d"
          by (cases "lastSeen d") auto
        with run stored show ?thesis
          unfolding processKey_incomplete [OF 1 False]
          by (cases "lastSeen d")
             (auto simp: Let_def split: if_splits prod.splits sum.splits dest!: ak_put_store)
      qed
    next
      case 2
      with run stored show ?thesis
        unfolding processKey_unread [OF 2]
        by (auto split: sum.splits)
    qed
  qed
  then obtain d' where d': "access_keys w' k = Some (Record d')"
     and cases: "lastSeen d' = lastSeen d
               \<or> (lastSeen d = Absent \<and> lastSeen d' = Null)
               \<or> (\<exists>a. activeKeys (last (js_split ''-'' k)) = Some a \<and> isActive activeKeys k
                       \<and> lastSeen d' = Val (latest a))" by blast
  have mono: "\<forall>t. lastSeen d = Val t \<longrightarrow>
                 (\<forall>a. activeKeys (last (js_split ''-'' k)) = Some a \<longrightarrow> t \<le> latest a) \<longrightarrow>
                 (\<exists>t'. lastSeen d' = Val t' \<and> t \<le> t')"
    using cases by auto
  from d' cases mono show ?thesis by blast
qed

theorem lastSeen_follows_snapshot_witness:
  "lastSeen idle91 = Val (19909 * 86400000)
   \<and> (\<exists>d' t'. access_keys (fst (snd (processKey example_env ''A-key-1'' active_snapshot False
                                    example_world emptyResults))) ''A-key-1''
                = Some (Record d')
              \<and> lastSeen d' = Val t' \<and> 19909 * 86400000 \<le> t')"
proof -
  let ?R = "processKey example_env ''A-key-1'' active_snapshot False example_world emptyResults"
  have run: "?R = (fst ?R, fst (snd ?R), snd (snd ?R))" by simp
  have stored: "access_keys example_world ''A-key-1'' = Some (Record idle91)"
    by (simp add: example_world_def)
  have seen: "lastSeen idle91 = Val (19909 * 86400000)" by (simp add: idle91_def)
  have id: "last (js_split ''-'' ''A-key-1'') = ''1''" by code_simp
  have later: "\<forall>a. active_snapshot (last (js_split ''-'' ''A-key-1'')) = Some a
                 \<longrightarrow> 19909 * 86400000 \<le> latest a"
    by (simp add: id active_snapshot_def)
  from lastSeen_follows_snapshot [OF run stored] seen later show ?thesis by blast
qed

section \<open>Endpoint scorer\<close>

text \<open>
  C7. The scorer does not rank every backend whose probe succeeds. When the read of a
  backend's entry in the endpoint store is rejected, the wait for the probes ends at
  once, and a backend whose probe succeeds afterwards has no score: with backend \<open>B\<close>'s
  read rejected while the probe of \<open>A\<close> (50 ms, 10 keys) is under way the scorer fails
  with \<open>No available API endpoints.\<close>, where a failed request to \<open>B\<close> leaves \<open>A\<close> selected;
  and a rejected read between the probes of \<open>A\<close> and \<open>B\<close> selects \<open>A\<close> although \<open>B\<close> would
  score lower. When all probes settle, the scenario of the specification holds: with
  latencies 50 and 20, counts 10 and 100 and weights 0.8 and 0.2 the scores are 42 and
  36 and \<open>B\<close> is selected; with no backend measured the scorer fails with
  \<open>No available API endpoints.\<close>. Scores are compared as the doubles they are: at 13.125
  ms with 18 keys against 4.374999999999999 ms with 53 keys the first backend wins.
\<close>

theorem scorer_drops_unsettled_probes:
  "getOptimalApiEndpoint example_cfg (Inr read_fails_first)
     = Inl (Error ''No available API endpoints.'')
   \<and> getOptimalApiEndpoint example_cfg (Inr fetch_fails_first) = Inr (Endpoint ''A'')
   \<and> probe_scores example_cfg read_fails_between = [(''A'', Finite 42), (''B'', Finite 36)]
   \<and> getOptimalApiEndpoint example_cfg (Inr read_fails_between) = Inr (Endpoint ''A'')
   \<and> probe_scores example_cfg scenario_probes = [(''A'', Finite 42), (''B'', Finite 36)]
   \<and> getOptimalApiEndpoint example_cfg (Inr scenario_probes) = Inr (Endpoint ''B'')
   \<and> getOptimalApiEndpoint example_cfg (Inr down_probes)
       = Inl (Error ''No available API endpoints.'')
   \<and> getOptimalApiEndpoint example_cfg (Inr near_tie_probes) = Inr (Endpoint ''A'')"
proof -
  have a: "getOptimalApiEndpoint example_cfg (Inr read_fails_first)
             = Inl (Error ''No available API endpoints.'')"
    by code_simp
  have b: "getOptimalApiEndpoint example_cfg (Inr fetch_fails_first) = Inr (Endpoint ''A'')"
    by code_simp
  have c: "probe_scores example_cfg read_fails_between = [(''A'', Finite 42), (''B'', Finite 36)]"
    by code_simp
  have d: "getOptimalApiEndpoint example_cfg (Inr read_fails_between) = Inr (Endpoint ''A'')"
    by code_simp
  have e: "probe_scores example_cfg scenario_probes = [(''A'', Finite 42), (''B'', Finite 36)]"
    by code_simp
  have f: "getOptimalApiEndpoint example_cfg (Inr scenario_probes) = Inr (Endpoint ''B'')"
    by code_simp
  have g: "getOptimalApiEndpoint example_cfg (Inr down_probes)
             = Inl (Error ''No available API endpoints.'')"
    by code_simp
  have h: "getOptimalApiEndpoint example_cfg (Inr near_tie_probes) = Inr (Endpoint ''A'')"
    by code_simp
  from a b c d e f g h show ?thesis by blast
qed

section \<open>Usage oracle adapter\<close>







lemma forEach_items_valid:
  "valid_times items \<Longrightarrow> \<exists>m. forEach_items items m0 = Inr m"
proof (induction items arbitrary: m0)
  case Nil
  then show ?case by simp
next
  case (Cons item items)
  show ?case
  proof (cases item)
    case Unusable
    with Cons show ?thesis by simp
  next
    case (Sample k t b)
    show ?thesis
    proof (cases t)
      case None
      with Sample Cons show ?thesis by simp
    next
      case (Some ts)
      with Sample Cons show ?thesis by (cases "k = []") (auto simp: Let_def)
    qed
  qed
qed

lemma forEach_items_invalid:
  "\<not> valid_times items \<Longrightarrow> forEach_items items m0 = Inl (Error ''Invalid time value'')"
proof (induction items arbitrary: m0)
  case Nil
  then show ?case by simp
next
  case (Cons item items)
  show ?case
  proof (cases item)
    case Unusable
    with Cons show ?thesis by simp
  next
    case (Sample k t b)
    show ?thesis
    proof (cases t)
      case None
      with Sample Cons show ?thesis by (cases "k = []") auto
    next
      case (Some ts)
      with Sample Cons show ?thesis by (cases "k = []") (auto simp: Let_def)
    qed
  qed
qed


lemma queryPrometheus_returns: "\<exists>r. queryPrometheus reply = Inr r"
  by (cases reply rule: queryPrometheus_try.cases) (auto simp: queryPrometheus_def)

lemma queryActiveKeys_returns:
  assumes "0 < MAX_RETRIES (cfg E)"
  shows "\<exists>r. queryActiveKeys E url = Inr r"
proof -
  from assms obtain n where n: "MAX_RETRIES (cfg E) = Suc n" by (cases "MAX_RETRIES (cfg E)") auto
  from queryPrometheus_returns obtain r where r: "queryPrometheus (prometheus E url 0) = Inr r"
    by blast
  have rt: "retry (\<lambda>i. queryPrometheus (prometheus E url i)) (MAX_RETRIES (cfg E)) = Inr r"
    by (simp add: n retry_def r)
  show ?thesis
  proof (cases r)
    case (PromFail m)
    with rt show ?thesis by (simp add: queryActiveKeys_def queryActiveKeys_try_def)
  next
    case (PromOk v)
    show ?thesis
    proof (cases v)
      case None
      with rt PromOk show ?thesis by (simp add: queryActiveKeys_def queryActiveKeys_try_def)
    next
      case (Some items)
      show ?thesis
      proof (cases "valid_times items")
        case True
        from forEach_items_valid [OF True] obtain m
          where "forEach_items items Map.empty = Inr m" by blast
        with rt PromOk Some show ?thesis
          by (simp add: queryActiveKeys_def queryActiveKeys_try_def)
      next
        case False
        from forEach_items_invalid [OF False, of Map.empty] rt PromOk Some show ?thesis
          by (simp add: queryActiveKeys_def queryActiveKeys_try_def)
      qed
    qed
  qed
qed


section \<open>Dry runs\<close>

lemma processKey_dry:
  "processKey E k activeKeys True w res = (x, w', res') \<Longrightarrow> w' = w"
  by (auto simp: processKey_def processKey_try_def Let_def
           split: sum.splits option.splits if_splits prod.splits)
































lemma processKey_missing:
  assumes rd: "retry (ak_get_parse E w k) (MAX_RETRIES (cfg E)) = Inr None"
  shows "processKey E k activeKeys isDryRun w res =
     (None, w, res\<lparr>errors := errors res @
        [''Error processing key '' @ k @ '': ''
           @ ''Cannot read properties of null (reading deletionTime)'']\<rparr>)"
  using rd by (simp add: processKey_def processKey_try_def)




section \<open>What a dry run reports\<close>

subsection \<open>Failures that are \<open>Error\<close> objects\<close>

lemma retry_loop_error:
  "fst (retry_loop n i fn e0) = Inl e \<Longrightarrow> e = e0 \<or> (\<exists>j. fn j = Inl e)"
proof (induction n arbitrary: i e0)
  case 0
  then show ?case by simp
next
  case (Suc n)
  show ?case
  proof (cases "fn i")
    case (Inl e1)
    with Suc.prems have "fst (retry_loop n (Suc i) fn e1) = Inl e" by simp
    from Suc.IH [OF this] Inl show ?thesis by auto
  next
    case (Inr v)
    with Suc.prems show ?thesis by simp
  qed
qed

lemma retry_error:
  assumes "retry fn n = Inl e" and "0 < n"
  shows "\<exists>j. fn j = Inl e"
proof -
  from assms(2) obtain m where m: "n = Suc m" by (cases n) auto
  show ?thesis
  proof (cases "fn 0")
    case (Inl e1)
    with assms(1) m have "fst (retry_loop m (Suc 0) fn e1) = Inl e" by (simp add: retry_def)
    from retry_loop_error [OF this] Inl show ?thesis by auto
  next
    case (Inr v)
    with assms(1) m show ?thesis by (simp add: retry_def)
  qed
qed

lemma retry_not_undefined:
  assumes "0 < n" and "\<And>j. fn j \<noteq> Inl Undefined"
  shows "retry fn n \<noteq> Inl Undefined"
  using retry_error [OF _ assms(1), of fn Undefined] assms(2) by blast

lemma message_Error: "e \<noteq> Undefined \<Longrightarrow> \<exists>m. message e = Inr m"
  by (cases e) auto

lemma errors_only_pos: "errors_only E \<Longrightarrow> 0 < MAX_RETRIES (cfg E)"
  by (simp add: errors_only_def)

lemma errors_only_get_parse:
  assumes "errors_only E"
  shows "retry (ak_get_parse E w k) (MAX_RETRIES (cfg E)) \<noteq> Inl Undefined"
proof (rule retry_not_undefined [OF errors_only_pos [OF assms]])
  fix j
  show "ak_get_parse E w k j \<noteq> Inl Undefined"
  proof (cases "fault E (AkGet k) j")
    case None
    then show ?thesis
      by (cases "access_keys w k" rule: json_parse.cases)
         (auto simp: ak_get_parse_def ak_get_def)
  next
    case (Some e)
    with assms show ?thesis
      by (auto simp: ak_get_parse_def ak_get_def errors_only_def)
  qed
qed

lemma errors_only_put:
  assumes "errors_only E"
  shows "fst (ak_put E k d w) \<noteq> Inl Undefined"
proof -
  have "put_attempt E k j \<noteq> Inl Undefined" for j
    using assms by (auto simp: put_attempt_def errors_only_def split: option.splits)
  from retry_not_undefined [OF errors_only_pos [OF assms], of "put_attempt E k"] this
  have "retry (put_attempt E k) (MAX_RETRIES (cfg E)) \<noteq> Inl Undefined" by blast
  then show ?thesis by (auto simp: ak_put_def Let_def split: sum.splits)
qed

lemma errors_only_list:
  assumes "errors_only E"
  shows "retry (ak_list E pre cursor limit) (MAX_RETRIES (cfg E)) \<noteq> Inl Undefined"
proof (rule retry_not_undefined [OF errors_only_pos [OF assms]])
  fix j
  show "ak_list E pre cursor limit j \<noteq> Inl Undefined"
    using assms
    by (auto simp: ak_list_def kv_list_def Let_def errors_only_def split: option.splits)
qed

lemma errors_only_ep_get:
  assumes "errors_only E"
  shows "retry (ep_get E h) (MAX_RETRIES (cfg E)) \<noteq> Inl Undefined"
proof (rule retry_not_undefined [OF errors_only_pos [OF assms]])
  fix j
  show "ep_get E h j \<noteq> Inl Undefined"
    using assms by (auto simp: ep_get_def errors_only_def split: option.splits)
qed

lemma queryActiveKeys_not_thrown:
  assumes "errors_only E"
  shows "queryActiveKeys E url \<noteq> Inl e"
  using queryActiveKeys_returns [OF errors_only_pos [OF assms], of url] by auto

lemma put_message:
  assumes "errors_only E" and "ak_put E k d w = (Inl error, w1)"
  shows "\<exists>m. message error = Inr m"
proof -
  from errors_only_put [OF assms(1), of k d w] assms(2) have "error \<noteq> Undefined" by auto
  then show ?thesis by (rule message_Error)
qed

subsection \<open>Reconciliation: one key\<close>

lemma ak_put_frame:
  assumes "ak_put E k d w = (r, w1)"
  shows "(\<forall>k'. k' \<noteq> k \<longrightarrow> access_keys w1 k' = access_keys w k')
       \<and> (\<forall>e \<in> set (requests w1). e \<in> set (requests w) \<or> e = KvPut k d)
       \<and> state_kv w1 = state_kv w"
  using assms by (auto simp: ak_put_def Let_def split: sum.splits)

lemma processKey_returns:
  assumes H: "errors_only E"
  shows "fst (processKey E k activeKeys isDryRun w res) = None"
proof (cases "retry (ak_get_parse E w k) (MAX_RETRIES (cfg E))")
  case (Inl e)
  with errors_only_get_parse [OF H, of w k] have "e \<noteq> Undefined" by auto
  from message_Error [OF this] obtain m where "message e = Inr m" by blast
  then show ?thesis unfolding processKey_unread [OF Inl] by simp
next
  case (Inr v)
  show ?thesis
  proof (cases v)
    case None
    with Inr have rd: "retry (ak_get_parse E w k) (MAX_RETRIES (cfg E)) = Inr None" by simp
    show ?thesis unfolding processKey_missing [OF rd] by simp
  next
    case (Some d)
    with Inr have rd: "retry (ak_get_parse E w k) (MAX_RETRIES (cfg E)) = Inr (Some d)" by simp
    have put: "fst (case ak_put E k d' w of
                 (Inr u, w1) \<Rightarrow> (None, w1, r1 w1)
               | (Inl error, w1) \<Rightarrow>
                   (case message error of
                      Inl e \<Rightarrow> (Some e, w1, r2)
                    | Inr m \<Rightarrow> (None, w1, r3 m))) = None" for d' r1 r2 r3
    proof (cases "ak_put E k d' w")
      case (Pair r w1)
      show ?thesis
      proof (cases r)
        case (Inl error)
        from put_message [OF H Pair [unfolded Inl]] obtain m where "message error = Inr m"
          by blast
        with Pair Inl show ?thesis by simp
      next
        case (Inr u)
        with Pair show ?thesis by simp
      qed
    qed
    show ?thesis
    proof (cases "all_present d")
      case True
      show ?thesis unfolding processKey_complete [OF rd True] by (simp add: put)
    next
      case False
      show ?thesis unfolding processKey_incomplete [OF rd False] by (simp add: put Let_def)
    qed
  qed
qed

lemma put_case_frame:
  assumes "(case ak_put E k d w of
              (Inr u, w1) \<Rightarrow> (None, w1, r1)
            | (Inl error, w1) \<Rightarrow>
                (case message error of
                   Inl e \<Rightarrow> (Some e, w1, r2)
                 | Inr m \<Rightarrow> (None, w1, r3 m))) = (x, w', res')"
  shows "(\<forall>k'. k' \<noteq> k \<longrightarrow> access_keys w' k' = access_keys w k')
       \<and> (\<forall>e \<in> set (requests w'). e \<in> set (requests w) \<or> e = KvPut k d)
       \<and> state_kv w' = state_kv w
       \<and> (res' = r1 \<or> res' = r2 \<or> (\<exists>m. res' = r3 m))"
proof (cases "ak_put E k d w")
  case (Pair r w1)
  note fr = ak_put_frame [OF Pair]
  show ?thesis
  proof (cases r)
    case (Inl error)
    with assms Pair fr show ?thesis by (cases "message error") auto
  next
    case (Inr u)
    with assms Pair fr show ?thesis by auto
  qed
qed

lemma processKey_frame:
  assumes "processKey E k activeKeys isDryRun w res = (x, w', res')"
  shows "(\<forall>k'. k' \<noteq> k \<longrightarrow> access_keys w' k' = access_keys w k')
       \<and> (\<forall>e \<in> set (requests w'). e \<in> set (requests w) \<or> (\<exists>d. e = KvPut k d))
       \<and> state_kv w' = state_kv w
       \<and> set (updatedKeys res) \<subseteq> set (updatedKeys res')"
proof (cases "retry (ak_get_parse E w k) (MAX_RETRIES (cfg E))")
  case (Inl e)
  from assms show ?thesis
    unfolding processKey_unread [OF Inl] by (cases "message e") auto
next
  case (Inr v)
  show ?thesis
  proof (cases v)
    case None
    with Inr have rd: "retry (ak_get_parse E w k) (MAX_RETRIES (cfg E)) = Inr None" by simp
    from assms show ?thesis unfolding processKey_missing [OF rd] by auto
  next
    case (Some d)
    with Inr have rd: "retry (ak_get_parse E w k) (MAX_RETRIES (cfg E)) = Inr (Some d)" by simp
    show ?thesis
    proof (cases "all_present d")
      case True
      show ?thesis
      proof (cases "\<not> (\<exists>t. deletionTime d = Val t) \<and> \<not> isDryRun
                    \<and> (isActive activeKeys k \<or> currentlyConnected d \<noteq> Val (isActive activeKeys k))")
        case True
        with assms processKey_complete [OF rd \<open>all_present d\<close>, of activeKeys isDryRun res]
        have "(case ak_put E k (finalKeyData activeKeys k d) w of
              (Inr u, w1) \<Rightarrow>
                (None, w1, res\<lparr>updatedKeys := updatedKeys res @
                   [\<lparr>ku_key = k, ku_before = Some d,
                     ku_after = Some (finalKeyData activeKeys k d)\<rparr>]\<rparr>)
            | (Inl error, w1) \<Rightarrow>
                (case message error of
                   Inl e \<Rightarrow> (Some e, w1, res)
                 | Inr m \<Rightarrow>
                     (None, w1, res\<lparr>errors := errors res @
                        [''Error processing key '' @ k @ '': '' @ m]\<rparr>))) = (x, w', res')"
          by auto
        from put_case_frame [OF this] show ?thesis by auto
      next
        case False
        with assms processKey_complete [OF rd \<open>all_present d\<close>, of activeKeys isDryRun res]
        show ?thesis by (auto split: if_splits)
      qed
    next
      case False
      show ?thesis
      proof (cases isDryRun)
        case True
        with assms processKey_incomplete [OF rd False, of activeKeys isDryRun res]
        show ?thesis by (auto simp: Let_def)
      next
        case live: False
        with assms processKey_incomplete [OF rd False, of activeKeys isDryRun res]
        have "(case ak_put E k (d\<lparr>deletionTime := or_null (deletionTime d),
                             lastSeen := or_null (lastSeen d),
                             currentlyConnected := or_null (currentlyConnected d)\<rparr>) w of
           (Inr u, w1) \<Rightarrow>
             (None, w1, res\<lparr>updatedKeys := updatedKeys res @
                [\<lparr>ku_key = k, ku_before = None, ku_after = None\<rparr>]\<rparr>)
         | (Inl error, w1) \<Rightarrow>
             (case message error of
                Inl e \<Rightarrow> (Some e, w1, res)
              | Inr m \<Rightarrow>
                  (None, w1, res\<lparr>errors := errors res @
                     [''Error processing key '' @ k @ '': '' @ m]\<rparr>))) = (x, w', res')"
          by (simp add: Let_def)
        from put_case_frame [OF this] show ?thesis by auto
      qed
    qed
  qed
qed

lemma ak_get_parse_same:
  "access_keys wl k = access_keys w k \<Longrightarrow> ak_get_parse E wl k = ak_get_parse E w k"
  by (rule ext) (simp add: ak_get_parse_def ak_get_def split: option.splits)

lemma processKey_agree:
  assumes same: "access_keys wl k = access_keys w k"
      and dry: "processKey E k activeKeys True w rd = (x, w', rd')"
      and live: "processKey E k activeKeys False wl rl = (y, wl', rl')"
  shows "wl' = wl \<or> k \<in> reported rd'"
proof -
  note eq = ak_get_parse_same [OF same, of E]
  show ?thesis
  proof (cases "retry (ak_get_parse E w k) (MAX_RETRIES (cfg E))")
    case (Inl e)
    then have rl: "retry (ak_get_parse E wl k) (MAX_RETRIES (cfg E)) = Inl e" by (simp add: eq)
    from live show ?thesis unfolding processKey_unread [OF rl] by (cases "message e") auto
  next
    case (Inr v)
    show ?thesis
    proof (cases v)
      case None
      with Inr have rl: "retry (ak_get_parse E wl k) (MAX_RETRIES (cfg E)) = Inr None"
        by (simp add: eq)
      from live show ?thesis unfolding processKey_missing [OF rl] by auto
    next
      case (Some d)
      with Inr have rd: "retry (ak_get_parse E w k) (MAX_RETRIES (cfg E)) = Inr (Some d)"
        and rl: "retry (ak_get_parse E wl k) (MAX_RETRIES (cfg E)) = Inr (Some d)"
        by (simp_all add: eq)
      show ?thesis
      proof (cases "all_present d")
        case True
        show ?thesis
        proof (cases "\<not> (\<exists>t. deletionTime d = Val t)
                      \<and> (isActive activeKeys k \<or> currentlyConnected d \<noteq> Val (isActive activeKeys k))")
          case True
          with dry processKey_complete [OF rd \<open>all_present d\<close>, of activeKeys True rd]
          show ?thesis by (auto simp: reported_def)
        next
          case False
          with live processKey_complete [OF rl \<open>all_present d\<close>, of activeKeys False rl]
          show ?thesis by (auto split: if_splits)
        qed
      next
        case False
        with dry processKey_incomplete [OF rd False, of activeKeys True rd]
        show ?thesis by (auto simp: reported_def Let_def)
      qed
    qed
  qed
qed

lemma processKey_lockstep:
  assumes H: "errors_only E" and cov: "dry_covers w rd wl"
      and dry: "processKey E k activeKeys True w rd = (x, w', rd')"
      and live: "processKey E k activeKeys False wl rl = (y, wl', rl')"
  shows "x = None \<and> y = None \<and> w' = w \<and> dry_covers w rd' wl'"
proof -
  from processKey_returns [OF H, of k activeKeys True w rd] dry have x: "x = None" by simp
  from processKey_returns [OF H, of k activeKeys False wl rl] live have y: "y = None" by simp
  from processKey_dry [OF dry] have w': "w' = w" .
  from processKey_frame [OF dry] have mono: "reported rd \<subseteq> reported rd'"
    by (auto simp: reported_def)
  from processKey_frame [OF live]
  have others: "\<And>k'. k' \<noteq> k \<Longrightarrow> access_keys wl' k' = access_keys wl k'"
    and reqs: "\<And>e. e \<in> set (requests wl') \<Longrightarrow> e \<in> set (requests wl) \<or> (\<exists>d. e = KvPut k d)"
    by auto
  from cov have c1: "\<And>k'. access_keys wl k' = access_keys w k' \<or> k' \<in> reported rd"
    and c2: "\<And>e. e \<in> set (requests wl) \<Longrightarrow>
               e \<in> set (requests w) \<or> (\<exists>k' \<in> reported rd. \<exists>d. e = KvPut k' d)"
    by (auto simp: dry_covers_def)
  have key: "wl' = wl \<or> k \<in> reported rd'"
  proof (cases "access_keys wl k = access_keys w k")
    case True
    from processKey_agree [OF True dry live] show ?thesis .
  next
    case False
    with c1 [of k] mono show ?thesis by auto
  qed
  have s: "access_keys wl' k' = access_keys w k' \<or> k' \<in> reported rd'" for k'
  proof (cases "k' = k")
    case True
    with key c1 [of k] mono show ?thesis by auto
  next
    case False
    with others [OF False] c1 [of k'] mono show ?thesis by auto
  qed
  have r: "e \<in> set (requests w) \<or> (\<exists>k' \<in> reported rd'. \<exists>d. e = KvPut k' d)"
    if "e \<in> set (requests wl')" for e
  proof (cases "e \<in> set (requests wl)")
    case True
    from c2 [OF this] mono show ?thesis by blast
  next
    case False
    with reqs [OF that] obtain d where e: "e = KvPut k d" by blast
    from False that have "wl' \<noteq> wl" by auto
    with key have "k \<in> reported rd'" by simp
    with e show ?thesis by blast
  qed
  from s r have "dry_covers w rd' wl'" by (auto simp: dry_covers_def)
  with x y w' show ?thesis by simp
qed

subsection \<open>Reconciliation: the scan\<close>

lemma reported_errors [simp]: "reported (res\<lparr>errors := es\<rparr>) = reported res"
  by (simp add: reported_def)

lemma reported_nextCursor [simp]: "reported (res\<lparr>nextCursor := c\<rparr>) = reported res"
  by (simp add: reported_def)

lemma dry_covers_errors [simp]: "dry_covers w (rd\<lparr>errors := es\<rparr>) wl = dry_covers w rd wl"
  by (simp add: dry_covers_def)

lemma dry_covers_nextCursor [simp]: "dry_covers w (rd\<lparr>nextCursor := c\<rparr>) wl = dry_covers w rd wl"
  by (simp add: dry_covers_def)

lemma dry_covers_start: "dry_covers w emptyResults w"
  by (simp add: dry_covers_def)

lemma processPage_lockstep:
  assumes H: "errors_only E"
  shows "dry_covers w rd wl \<Longrightarrow>
         processPage E activeKeys True ks p r w rd = (x, p1, r1, w', rd') \<Longrightarrow>
         processPage E activeKeys False ks p r wl rl = (y, p2, r2, wl', rl') \<Longrightarrow>
         x = None \<and> y = None \<and> p2 = p1 \<and> r2 = r1 \<and> w' = w \<and> dry_covers w rd' wl'"
proof (induction ks arbitrary: p r rd wl rl)
  case Nil
  then show ?case by simp
next
  case (Cons k ks)
  obtain xd wd rd1 where pd: "processKey E k activeKeys True w rd = (xd, wd, rd1)"
    by (cases "processKey E k activeKeys True w rd")
  obtain xl wl1 rl1 where pl: "processKey E k activeKeys False wl rl = (xl, wl1, rl1)"
    by (cases "processKey E k activeKeys False wl rl")
  from processKey_lockstep [OF H Cons.prems(1) pd pl]
  have xd: "xd = None" and xl: "xl = None" and wd: "wd = w" and cov1: "dry_covers w rd1 wl1"
    by simp_all
  show ?case
  proof (cases "r - 1 \<le> 0")
    case True
    with Cons.prems(2,3) pd pl xd xl wd cov1 show ?thesis by simp
  next
    case False
    with Cons.prems(2) pd xd wd
    have d: "processPage E activeKeys True ks (p + 1) (r - 1) w rd1 = (x, p1, r1, w', rd')"
      by simp
    from False Cons.prems(3) pl xl
    have l: "processPage E activeKeys False ks (p + 1) (r - 1) wl1 rl1 = (y, p2, r2, wl', rl')"
      by simp
    from Cons.IH [OF cov1 d l] show ?thesis .
  qed
qed

lemma processKeysForHostname_loop_lockstep:
  "errors_only E \<Longrightarrow> isDryRun \<Longrightarrow> dry_covers w rd wl \<Longrightarrow>
   processKeysForHostname_loop E hostname activeKeys isDryRun cursor p r w rd = (x, w', rd') \<Longrightarrow>
   processKeysForHostname_loop E hostname activeKeys False cursor p r wl rl = (y, wl', rl') \<Longrightarrow>
   y = x \<and> w' = w \<and> dry_covers w rd' wl' \<and> x \<noteq> Inl Undefined"
proof (induction E hostname activeKeys isDryRun cursor p r w rd arbitrary: x w' rd' wl rl y wl' rl'
       rule: processKeysForHostname_loop.induct)
  case (1 E hostname activeKeys isDryRun cursor p r w res)
  note H = "1.prems"(1) and dry = "1.prems"(2) and cov = "1.prems"(3)
    and rund = "1.prems"(4) and runl = "1.prems"(5)
  show ?case
  proof (cases "retry (ak_list E (hostname @ ''-key-'') cursor (min r 1000)) (MAX_RETRIES (cfg E))")
    case (Inl e)
    with errors_only_list [OF H, of "hostname @ ''-key-''" cursor "min r 1000"]
    have "e \<noteq> Undefined" by auto
    with Inl rund runl cov show ?thesis by auto
  next
    case (Inr page)
    obtain ks c where page: "page = (ks, c)" by (cases page)
    obtain xd p1 r1 w1 rd1 where pd:
      "processPage E activeKeys isDryRun ks p r w res = (xd, p1, r1, w1, rd1)"
      by (cases "processPage E activeKeys isDryRun ks p r w res")
    obtain xl p2 r2 wl1 rl1 where pl:
      "processPage E activeKeys False ks p r wl rl = (xl, p2, r2, wl1, rl1)"
      by (cases "processPage E activeKeys False ks p r wl rl")
    from dry pd have pd': "processPage E activeKeys True ks p r w res = (xd, p1, r1, w1, rd1)"
      by simp
    from processPage_lockstep [OF H cov pd' pl]
    have xd: "xd = None" and xl: "xl = None" and p2: "p2 = p1" and r2: "r2 = r1"
      and w1: "w1 = w" and cov1: "dry_covers w rd1 wl1"
      by simp_all
    show ?thesis
    proof (cases c)
      case None
      with rund runl Inr page pd pl xd xl p2 r2 w1 cov1 show ?thesis by auto
    next
      case (Some ctok)
      show ?thesis
      proof (cases "ctok \<noteq> [] \<and> 0 < r1")
        case True
        with rund Inr page pd Some xd
        have recd: "processKeysForHostname_loop E hostname activeKeys isDryRun (Some ctok) p1 r1 w1 rd1
                = (x, w', rd')" by simp
        from True runl Inr page pl Some xl p2 r2
        have recl: "processKeysForHostname_loop E hostname activeKeys False (Some ctok) p1 r1 wl1 rl1
                = (y, wl', rl')" by simp
        from cov1 w1 have cov1': "dry_covers w1 rd1 wl1" by simp
        have "y = x \<and> w' = w1 \<and> dry_covers w1 rd' wl' \<and> x \<noteq> Inl Undefined"
          by (rule "1.IH" [OF Inr page [symmetric] Some pd [symmetric] _ refl refl refl _
                H dry cov1' recd recl])
             (use True xd in auto)
        with w1 show ?thesis by auto
      next
        case False
        with rund runl Inr page pd pl Some xd xl p2 r2 w1 cov1 show ?thesis
          by (auto split: if_splits)
      qed
    qed
  qed
qed

lemma processKeysForHostname_lockstep:
  assumes H: "errors_only E" and cov: "dry_covers w rd wl"
      and dry: "processKeysForHostname E hostname activeKeys True w rd r c = (x, w', rd')"
      and live: "processKeysForHostname E hostname activeKeys False wl rl r c = (y, wl', rl')"
  shows "y = x \<and> w' = w \<and> dry_covers w rd' wl' \<and> x \<noteq> Inl Undefined"
  using processKeysForHostname_loop_lockstep [OF H TrueI cov]
        dry live unfolding processKeysForHostname_def by blast

lemma updateHost_try_lockstep:
  assumes H: "errors_only E" and cov: "dry_covers w rd wl"
      and dry: "updateHost_try E True hostname c g w rd = (x, w', rd')"
      and live: "updateHost_try E False hostname c g wl rl = (y, wl', rl')"
  shows "y = x \<and> w' = w \<and> dry_covers w rd' wl' \<and> x \<noteq> Inl Undefined"
proof (cases "retry (ep_get E hostname) (MAX_RETRIES (cfg E))")
  case (Inl e)
  with errors_only_ep_get [OF H, of hostname] have "e \<noteq> Undefined" by auto
  with Inl dry live cov show ?thesis by (auto simp: updateHost_try_def)
next
  case (Inr entry)
  show ?thesis
  proof (cases "falsy_entry entry")
    case True
    with dry live cov Inr show ?thesis by (auto simp: updateHost_try_def)
  next
    case False
    show ?thesis
    proof (cases entry)
      case None
      with False show ?thesis by auto
    next
      case (Some ent)
      show ?thesis
      proof (cases ent)
        case (EpRaw s)
        with dry live cov Inr False Some show ?thesis by (auto simp: updateHost_try_def)
      next
        case (EpJson apiUrl prometheusUrl)
        show ?thesis
        proof (cases "queryActiveKeys E (template prometheusUrl)")
          case (Inl e)
          with queryActiveKeys_not_thrown [OF H] show ?thesis by blast
        next
          case qr: (Inr q)
          show ?thesis
          proof (cases q)
            case (Failure m)
            with dry live cov Inr False Some EpJson qr show ?thesis
              by (auto simp: updateHost_try_def)
          next
            case (Success activeKeys)
            obtain xd wd rd1 where pd:
              "processKeysForHostname E hostname activeKeys True w rd
                 (MAX_KEYS_PER_RUN (cfg E) - g) c = (xd, wd, rd1)"
              by (cases "processKeysForHostname E hostname activeKeys True w rd
                 (MAX_KEYS_PER_RUN (cfg E) - g) c")
            obtain xl wl1 rl1 where pl:
              "processKeysForHostname E hostname activeKeys False wl rl
                 (MAX_KEYS_PER_RUN (cfg E) - g) c = (xl, wl1, rl1)"
              by (cases "processKeysForHostname E hostname activeKeys False wl rl
                 (MAX_KEYS_PER_RUN (cfg E) - g) c")
            from processKeysForHostname_lockstep [OF H cov pd pl]
            have xl: "xl = xd" and wd: "wd = w" and cov1: "dry_covers w rd1 wl1"
              and nu: "xd \<noteq> Inl Undefined" by simp_all
            show ?thesis
            proof (cases xd)
              case (Inl e)
              with nu dry live Inr False Some EpJson qr Success pd pl xl wd cov1 show ?thesis
                by (auto simp: updateHost_try_def)
            next
              case out: (Inr pn)
              obtain n nxt where pn: "pn = (n, nxt)" by (cases pn)
              with out dry live Inr False Some EpJson qr Success pd pl xl wd cov1 show ?thesis
                by (auto simp: updateHost_try_def split: if_splits)
            qed
          qed
        qed
      qed
    qed
  qed
qed

lemma updateAccessKeys_loop_lockstep:
  assumes H: "errors_only E"
  shows "dry_covers w rd wl \<Longrightarrow>
         updateAccessKeys_loop E True hosts sh c g w rd = (x, w', rd') \<Longrightarrow>
         updateAccessKeys_loop E False hosts sh c g wl rl = (y, wl', rl') \<Longrightarrow>
         y = x \<and> w' = w \<and> dry_covers w rd' wl' \<and> x = None"
proof (induction hosts arbitrary: sh c g rd wl rl)
  case Nil
  then show ?case by simp
next
  case (Cons hostname rest)
  note cov = Cons.prems(1) and dry = Cons.prems(2) and live = Cons.prems(3)
  show ?case
  proof (cases "truthy_str sh \<and> Some hostname \<noteq> sh")
    case True
    with dry have d: "updateAccessKeys_loop E True rest sh c g w rd = (x, w', rd')" by simp
    from True live have l: "updateAccessKeys_loop E False rest sh c g wl rl = (y, wl', rl')"
      by simp
    from Cons.IH [OF cov d l] show ?thesis .
  next
    case False
    then have cnd: "(truthy_str sh \<and> Some hostname \<noteq> sh) = False" by simp
    note dry = dry [unfolded updateAccessKeys_loop.simps cnd if_False]
    note live = live [unfolded updateAccessKeys_loop.simps cnd if_False]
    obtain xd wd rd1 where hd: "updateHost_try E True hostname c g w rd = (xd, wd, rd1)"
      by (cases "updateHost_try E True hostname c g w rd")
    obtain xl wl1 rl1 where hl: "updateHost_try E False hostname c g wl rl = (xl, wl1, rl1)"
      by (cases "updateHost_try E False hostname c g wl rl")
    from updateHost_try_lockstep [OF H cov hd hl]
    have xl: "xl = xd" and wd: "wd = w" and cov1: "dry_covers w rd1 wl1"
      and nu: "xd \<noteq> Inl Undefined" by simp_all
    show ?thesis
    proof (cases xd)
      case (Inl error)
      show ?thesis
      proof (cases "message error")
        case e: (Inl e)
        from nu Inl have "error \<noteq> Undefined" by simp
        from message_Error [OF this] e show ?thesis by simp
      next
        case (Inr m)
        let ?msg = "[''Error processing hostname '' @ hostname @ '': '' @ m]"
        from Inr Inl dry hd wd
        have d: "updateAccessKeys_loop E True rest None c g w (rd1\<lparr>errors := errors rd1 @ ?msg\<rparr>)
                   = (x, w', rd')" by simp
        from Inr Inl live hl xl
        have l: "updateAccessKeys_loop E False rest None c g wl1 (rl1\<lparr>errors := errors rl1 @ ?msg\<rparr>)
                   = (y, wl', rl')" by simp
        from cov1 have "dry_covers w (rd1\<lparr>errors := errors rd1 @ ?msg\<rparr>) wl1" by simp
        from Cons.IH [OF this d l] show ?thesis .
      qed
    next
      case (Inr out)
      obtain brk c1 g1 where out: "out = (brk, c1, g1)" by (cases out)
      show ?thesis
      proof (cases brk)
        case True
        with Inr out dry live hd hl xl wd cov1 show ?thesis by simp
      next
        case stay: False
        with Inr out dry hd wd
        have d: "updateAccessKeys_loop E True rest None c1 g1 w rd1 = (x, w', rd')" by simp
        from stay Inr out live hl xl
        have l: "updateAccessKeys_loop E False rest None c1 g1 wl1 rl1 = (y, wl', rl')" by simp
        from Cons.IH [OF cov1 d l] show ?thesis .
      qed
    qed
  qed
qed

lemma updateAccessKeys_lockstep:
  assumes H: "errors_only E"
      and dry: "updateAccessKeys E True startCursor w = (x, w', rd')"
      and live: "updateAccessKeys E False startCursor w = (y, wl', rl')"
  shows "y = x \<and> w' = w \<and> dry_covers w rd' wl' \<and> (x \<noteq> None \<longrightarrow> wl' = w)"
proof (cases "retry (ep_list E) (MAX_RETRIES (cfg E))")
  case (Inl e)
  with dry live show ?thesis by (auto simp: updateAccessKeys_def dry_covers_start)
next
  case (Inr hostnames)
  obtain sh c where sc: "split_cursor startCursor = (sh, c)" by (cases "split_cursor startCursor")
  from dry Inr sc
  have d: "updateAccessKeys_loop E True hostnames sh c 0 w emptyResults = (x, w', rd')"
    by (simp add: updateAccessKeys_def)
  from live Inr sc
  have l: "updateAccessKeys_loop E False hostnames sh c 0 w emptyResults = (y, wl', rl')"
    by (simp add: updateAccessKeys_def)
  from updateAccessKeys_loop_lockstep [OF H dry_covers_start d l] show ?thesis by simp
qed

lemma updateTargetKey_try_lockstep:
  assumes H: "errors_only E" and cov: "dry_covers w rd wl"
      and dry: "updateTargetKey_try E targetKey True w rd = (x, w', rd')"
      and live: "updateTargetKey_try E targetKey False wl rl = (y, wl', rl')"
  shows "y = x \<and> w' = w \<and> dry_covers w rd' wl' \<and> x \<noteq> Inl Undefined"
proof -
  let ?h = "hd (js_split ''-key-'' targetKey)"
  show ?thesis
  proof (cases "retry (ep_get E ?h) (MAX_RETRIES (cfg E))")
    case (Inl e)
    with errors_only_ep_get [OF H, of ?h] have "e \<noteq> Undefined" by auto
    with Inl dry live cov show ?thesis by (auto simp: updateTargetKey_try_def)
  next
    case (Inr entry)
    show ?thesis
    proof (cases "falsy_entry entry")
      case True
      with dry live cov Inr show ?thesis by (auto simp: updateTargetKey_try_def)
    next
      case False
      show ?thesis
      proof (cases entry)
        case None
        with False show ?thesis by auto
      next
        case (Some ent)
        show ?thesis
        proof (cases ent)
          case (EpRaw s)
          with dry live cov Inr False Some show ?thesis by (auto simp: updateTargetKey_try_def)
        next
          case (EpJson apiUrl prometheusUrl)
          show ?thesis
          proof (cases "queryActiveKeys E (template prometheusUrl)")
            case (Inl e)
            with queryActiveKeys_not_thrown [OF H] show ?thesis by blast
          next
            case qr: (Inr q)
            show ?thesis
            proof (cases q)
              case (Failure m)
              with dry live cov Inr False Some EpJson qr show ?thesis
                by (auto simp: updateTargetKey_try_def)
            next
              case (Success activeKeys)
              obtain xd wd rd1 where pd:
                "processKey E targetKey activeKeys True w rd = (xd, wd, rd1)"
                by (cases "processKey E targetKey activeKeys True w rd")
              obtain xl wl1 rl1 where pl:
                "processKey E targetKey activeKeys False wl rl = (xl, wl1, rl1)"
                by (cases "processKey E targetKey activeKeys False wl rl")
              from processKey_lockstep [OF H cov pd pl]
              have "xd = None" "xl = None" "wd = w" "dry_covers w rd1 wl1" by simp_all
              with dry live Inr False Some EpJson qr Success pd pl show ?thesis
                by (auto simp: updateTargetKey_try_def)
            qed
          qed
        qed
      qed
    qed
  qed
qed

lemma updateTargetKey_lockstep:
  assumes H: "errors_only E"
      and dry: "updateTargetKey E targetKey True w = (x, w', rd')"
      and live: "updateTargetKey E targetKey False w = (y, wl', rl')"
  shows "y = x \<and> w' = w \<and> dry_covers w rd' wl' \<and> x = None"
proof -
  obtain xd wd rd1 where pd: "updateTargetKey_try E targetKey True w emptyResults = (xd, wd, rd1)"
    by (cases "updateTargetKey_try E targetKey True w emptyResults")
  obtain xl wl1 rl1 where pl: "updateTargetKey_try E targetKey False w emptyResults = (xl, wl1, rl1)"
    by (cases "updateTargetKey_try E targetKey False w emptyResults")
  from updateTargetKey_try_lockstep [OF H dry_covers_start pd pl]
  have xl: "xl = xd" and wd: "wd = w" and cov1: "dry_covers w rd1 wl1"
    and nu: "xd \<noteq> Inl Undefined" by simp_all
  show ?thesis
  proof (cases xd)
    case (Inl error)
    with nu have "error \<noteq> Undefined" by simp
    from message_Error [OF this] obtain m where "message error = Inr m" by blast
    with Inl dry live pd pl xl wd cov1 show ?thesis
      by (auto simp: updateTargetKey_def)
  next
    case (Inr u)
    with dry live pd pl xl wd cov1 show ?thesis by (auto simp: updateTargetKey_def)
  qed
qed

lemma dry_covers_written: "dry_covers w rd wl \<Longrightarrow> written w wl \<subseteq> reported rd"
  by (auto simp: dry_covers_def written_def)

lemma st_put_frame:
  assumes "st_put E k v w = (r, w1)"
  shows "access_keys w1 = access_keys w
       \<and> (\<forall>e \<in> set (requests w1). e \<in> set (requests w) \<or> e = StatePut k v)"
  using assms by (auto simp: st_put_def Let_def split: sum.splits)

lemma st_delete_frame:
  assumes "st_delete E k w = (r, w1)"
  shows "access_keys w1 = access_keys w
       \<and> (\<forall>e \<in> set (requests w1). e \<in> set (requests w) \<or> e = StateDelete k)"
  using assms by (auto simp: st_delete_def Let_def split: sum.splits)

lemma written_state_ops:
  assumes "access_keys w2 = access_keys w1"
      and "\<forall>e \<in> set (requests w2). e \<in> set (requests w1) \<or> (\<exists>k v. e = StatePut k v)
             \<or> (\<exists>k. e = StateDelete k)"
  shows "written w w2 \<subseteq> written w w1"
  using assms by (fastforce simp: written_def)

lemma update_run_report:
  assumes H: "errors_only E"
      and dry: "update_run E True targetKey w = (x, w', rd')"
      and live: "update_run E False targetKey w = (y, wl', rl')"
  shows "written w wl' = {} \<or> (x = None \<and> written w wl' \<subseteq> reported rd')"
proof (cases "truthy_str targetKey")
  case True
  then obtain k where k: "targetKey = Some k" by (cases targetKey) auto
  from True k dry have d: "updateTargetKey E k True w = (x, w', rd')" by (simp add: update_run_def)
  from True k live have l: "updateTargetKey E k False w = (y, wl', rl')"
    by (simp add: update_run_def)
  from updateTargetKey_lockstep [OF H d l] dry_covers_written show ?thesis by blast
next
  case False
  show ?thesis
  proof (cases "retry (st_get E w UPDATE_CURSOR_KEY) (MAX_RETRIES (cfg E))")
    case (Inl e)
    with False live have "wl' = w" by (simp add: update_run_def)
    then show ?thesis by (simp add: written_def)
  next
    case (Inr startCursor)
    obtain xd wd rd1 where ud: "updateAccessKeys E True startCursor w = (xd, wd, rd1)"
      by (cases "updateAccessKeys E True startCursor w")
    obtain xl wl1 rl1 where ul: "updateAccessKeys E False startCursor w = (xl, wl1, rl1)"
      by (cases "updateAccessKeys E False startCursor w")
    from updateAccessKeys_lockstep [OF H ud ul]
    have xl: "xl = xd" and wd: "wd = w" and cov1: "dry_covers w rd1 wl1"
      and thrown: "xd \<noteq> None \<longrightarrow> wl1 = w" by simp_all
    show ?thesis
    proof (cases xd)
      case (Some e)
      with thrown have "wl1 = w" by simp
      with Some False Inr live ul xl have "wl' = w" by (simp add: update_run_def)
      then show ?thesis by (simp add: written_def)
    next
      case None
      with False Inr dry ud have x: "x = None" and rd': "rd' = rd1"
        by (simp_all add: update_run_def)
      from dry_covers_written [OF cov1] have sub: "written w wl1 \<subseteq> reported rd1" .
      have "written w wl' \<subseteq> written w wl1"
      proof (cases "truthy_str (nextCursor rl1)")
        case True
        obtain r w2 where sp: "st_put E UPDATE_CURSOR_KEY (template (nextCursor rl1)) wl1 = (r, w2)"
          by (cases "st_put E UPDATE_CURSOR_KEY (template (nextCursor rl1)) wl1")
        with True None False Inr live ul xl have "wl' = w2"
          by (cases r) (simp_all add: update_run_def)
        with st_put_frame [OF sp] show ?thesis
          by (intro written_state_ops) auto
      next
        case nc: False
        obtain r w2 where sd: "st_delete E UPDATE_CURSOR_KEY wl1 = (r, w2)"
          by (cases "st_delete E UPDATE_CURSOR_KEY wl1")
        with nc None False Inr live ul xl have "wl' = w2"
          by (cases r) (simp_all add: update_run_def)
        with st_delete_frame [OF sd] show ?thesis
          by (intro written_state_ops) auto
      qed
      with sub x rd' show ?thesis by blast
    qed
  qed
qed

text \<open>
  The entry point: a dry run that passes the authorization check, against any run that
  is not dry and names the same target key.
\<close>

lemma update_handleRequest_report:
  assumes H: "errors_only E"
      and dry: "update_isDryRun req"
      and auth: "isCronTriggered \<or> (\<exists>r. req = Some r \<and> verifyAuth r (AUTH_TOKEN (cfg E)))"
      and live: "\<not> update_isDryRun req'"
      and target: "(case req' of None \<Rightarrow> None | Some r \<Rightarrow> x_target_key r)
                   = (case req of None \<Rightarrow> None | Some r \<Rightarrow> x_target_key r)"
  shows "written w (snd (update_handleRequest E req' isCronTriggered' w)) = {}
       \<or> (\<exists>r. fst (update_handleRequest E req isCronTriggered w) = Response200 r
              \<and> written w (snd (update_handleRequest E req' isCronTriggered' w)) \<subseteq> reported r)"
proof -
  let ?tk = "case req of None \<Rightarrow> None | Some r \<Rightarrow> x_target_key r"
  from dry obtain rq where rq: "req = Some rq" by (cases req) (auto simp: update_isDryRun_def)
  obtain x w' rd' where d: "update_run E True ?tk w = (x, w', rd')"
    by (cases "update_run E True ?tk w")
  obtain y wl' rl' where l: "update_run E False ?tk w = (y, wl', rl')"
    by (cases "update_run E False ?tk w")
  note rep = update_run_report [OF H d l]
  have dry_resp: "fst (update_handleRequest E req isCronTriggered w)
                    = (case x of None \<Rightarrow> Response200 rd' | Some e \<Rightarrow> Response500 (details e))"
    using dry auth rq d by (cases x) (auto simp: update_handleRequest_def Let_def)
  have live_world: "snd (update_handleRequest E req' isCronTriggered' w) = w
                    \<or> snd (update_handleRequest E req' isCronTriggered' w) = wl'"
    using live target l by (cases y) (auto simp: update_handleRequest_def Let_def)
  then show ?thesis
  proof
    assume "snd (update_handleRequest E req' isCronTriggered' w) = w"
    then show ?thesis by (simp add: written_def)
  next
    assume wl: "snd (update_handleRequest E req' isCronTriggered' w) = wl'"
    from rep show ?thesis
    proof
      assume "written w wl' = {}"
      with wl show ?thesis by simp
    next
      assume "x = None \<and> written w wl' \<subseteq> reported rd'"
      with wl dry_resp show ?thesis by simp
    qed
  qed
qed



section \<open>The budget of the revocation scan\<close>

text \<open>
  C1, on the code. With a budget of one key, two backends and three credentials, the
  revocation scan processes two credentials and returns no cursor, although a
  credential of the first backend was not reached: \<open>processAllKeys\<close> throws on
  \<open>processedKeys.errors\<close> after every backend, so the key count is never added up and
  the cursor is never set. On the same input the reconciliation scan stops after one
  credential and returns the cursor of the first backend. In the reconciliation scan, a
  budget that runs out exactly at the last key of a backend gives the cursor
  \<open>A:undefined\<close>, a cursor although nothing remains.
\<close>

theorem revocation_scan_exceeds_budget:
  "MAX_KEYS_PER_RUN (cfg budget_env) = 1
   \<and> map ki_key (processedKeys (snd (snd (processAllKeys budget_env True None [] budget_world))))
       = [''A-key-1'', ''B-key-1'']
   \<and> del_nextCursor (snd (snd (processAllKeys budget_env True None [] budget_world))) = None
   \<and> del_errors (snd (snd (processAllKeys budget_env True None [] budget_world)))
       = [''Error processing hostname A: undefined is not iterable'',
          ''Error processing hostname B: undefined is not iterable'']
   \<and> nextCursor (snd (snd (updateAccessKeys budget_env True None budget_world)))
       = Some (''A:'' @ token 1)
   \<and> nextCursor (snd (snd (updateAccessKeys single_env True None example_world)))
       = Some ''A:undefined''"
  by code_simp

end
